theory Spec2Isabelle
  imports Complex_Main "HOL-Library.Sublist"
begin

section \<open>JavaScript primitives used by the sources\<close>

text \<open>
  Numbers that the sources only ever use as integers (byte counts, percentages,
  millisecond timestamps, the parsed \<open>HLS_TIME\<close>) are modelled as \<open>int\<close>;
  strings are \<open>char list\<close>.  \<open>String(n)\<close> and template interpolation of an
  integer are \<open>show_int\<close>; \<open>parseInt(s, 10)\<close> on a string of decimal digits is
  \<open>parseInt\<close>.
\<close>

definition is_digit :: "char \<Rightarrow> bool" where
  "is_digit c = (c \<in> set ''0123456789'')"

definition digit_val :: "char \<Rightarrow> nat" where
  "digit_val c = (of_char c :: nat) - 48"

definition digit_char :: "nat \<Rightarrow> char" where
  "digit_char d = ''0123456789'' ! d"

function show_nat :: "nat \<Rightarrow> string" where
  "show_nat n =
     (if n < 10 then [digit_char n]
      else show_nat (n div 10) @ [digit_char (n mod 10)])"
  by pat_completeness auto
termination
  by (relation "measure (\<lambda>n. n)") auto

definition show_int :: "int \<Rightarrow> string" where
  "show_int i = (if i < 0 then CHR ''-'' # show_nat (nat (- i)) else show_nat (nat i))"

definition parseInt :: "string \<Rightarrow> int" where
  "parseInt s = int (foldl (\<lambda>acc c. acc * 10 + digit_val c) 0 s)"

text \<open>\<open>a || b\<close> on numbers: \<open>0\<close> is falsy.\<close>

definition num_or :: "int \<Rightarrow> int \<Rightarrow> int" where
  "num_or a b = (if a = 0 then b else a)"

section \<open>Configuration\<close>

text \<open>
  The fields of \<open>Config\<close> (types/index.ts) that the modelled functions read.
  \<open>hls_time\<close> is filled by \<open>getEnvNumber('HLS_TIME', 2)\<close>, that is by
  \<open>parseInt\<close> with a default, so it is always an integer.
\<close>

record Config =
  base_url :: string
  hls_time :: int
  allowed_download_domains :: "string list"
  wordpress_webhook_url :: string

section \<open>HLS segment duration and keyframe interval\<close>

text \<open>hls-converter.ts, \<open>getHlsSegmentDuration\<close>.\<close>

definition getHlsSegmentDuration :: "Config \<Rightarrow> int" where
  "getHlsSegmentDuration cfg =
     (let duration = num_or (hls_time cfg) 2
      in min (max duration 2) 3)"

text \<open>ffmpeg.ts, \<open>getHlsKeyframeInterval\<close>.\<close>

definition getHlsKeyframeInterval :: "Config \<Rightarrow> int" where
  "getHlsKeyframeInterval cfg =
     (let duration = num_or (hls_time cfg) 2
      in min (max duration 2) 3)"

text \<open>ffmpeg.ts: \<open>CompressOptions\<close>, \<open>QUALITY_CRF_MAP\<close> and the output options that
  \<open>compressVideo\<close> hands to the transcoder.\<close>

record CompressOptions =
  opt_width :: int
  opt_height :: int
  opt_bitrate :: string
  opt_maxrate :: string
  opt_bufsize :: string
  opt_quality :: string
  opt_crf :: "int option"

definition QUALITY_CRF_MAP :: "string \<rightharpoonup> int" where
  "QUALITY_CRF_MAP =
     [''480p'' \<mapsto> 23, ''360p'' \<mapsto> 23, ''240p'' \<mapsto> 22, ''144p'' \<mapsto> 21]"

definition compressVideo_outputOptions :: "Config \<Rightarrow> CompressOptions \<Rightarrow> string list" where
  "compressVideo_outputOptions cfg options =
     (let scaleFilter = ''scale=-2:'' @ show_int (opt_height options);
          qualityCrf = (case opt_crf options of Some c \<Rightarrow> c
                        | None \<Rightarrow> (case QUALITY_CRF_MAP (opt_quality options) of
                                      Some c \<Rightarrow> c | None \<Rightarrow> 22));
          hlsKeyframeInterval = getHlsKeyframeInterval cfg
      in [''-y'',
          ''-vf '' @ scaleFilter,
          ''-c:v libx264'',
          ''-preset slow'',
          ''-crf '' @ show_int qualityCrf,
          ''-profile:v main'',
          ''-level 3.1'',
          ''-pix_fmt yuv420p'',
          ''-force_key_frames expr:gte(t,n_forced*'' @ show_int hlsKeyframeInterval @ '')'',
          ''-sc_threshold 0'',
          ''-c:a aac'',
          ''-b:a 64k'',
          ''-ar 44100'',
          ''-ac 2'',
          ''-map 0:v:0'',
          ''-map 0:a:0?'',
          ''-movflags +faststart''])"

section \<open>Content route: HTTP Range requests\<close>

text \<open>
  route.ts, \<open>parseRangeHeader\<close>.  The pattern \<open>/bytes=(\\d*)-(\\d*)/\<close> is not
  anchored: \<open>regex_range\<close> tries it at every position from the left.  At one
  position the two groups are the maximal runs of digits (a digit can never stand
  for the hyphen, so giving digits back does not help the match).
\<close>

fun strip_prefix :: "string \<Rightarrow> string \<Rightarrow> string option" where
  "strip_prefix [] s = Some s"
| "strip_prefix (p # ps) [] = None"
| "strip_prefix (p # ps) (c # cs) = (if p = c then strip_prefix ps cs else None)"

definition regex_range_at :: "string \<Rightarrow> (string \<times> string) option" where
  "regex_range_at s =
     (case strip_prefix ''bytes='' s of
        None \<Rightarrow> None
      | Some r \<Rightarrow>
          (case dropWhile is_digit r of
             [] \<Rightarrow> None
           | c # r2 \<Rightarrow>
               if c = CHR ''-'' then Some (takeWhile is_digit r, takeWhile is_digit r2)
               else None))"

fun regex_range :: "string \<Rightarrow> (string \<times> string) option" where
  "regex_range [] = regex_range_at []"
| "regex_range (c # cs) =
     (case regex_range_at (c # cs) of
        Some m \<Rightarrow> Some m
      | None \<Rightarrow> regex_range cs)"

definition parseRangeHeader :: "string \<Rightarrow> int \<Rightarrow> (int \<times> int) option" where
  "parseRangeHeader rangeHeader fileSize =
     (case regex_range rangeHeader of
        None \<Rightarrow> None
      | Some (m1, m2) \<Rightarrow>
          (let hasStart = (m1 \<noteq> []);
               hasEnd = (m2 \<noteq> []);
               bounds =
                 (if \<not> hasStart \<and> hasEnd then
                    (let suffixLength = parseInt m2
                     in if suffixLength \<le> 0 then None
                        else Some (max 0 (fileSize - suffixLength), fileSize - 1))
                  else if hasStart \<and> \<not> hasEnd then Some (parseInt m1, fileSize - 1)
                  else if hasStart \<and> hasEnd then Some (parseInt m1, parseInt m2)
                  else None)
           in case bounds of
                None \<Rightarrow> None
              | Some (start, end) \<Rightarrow>
                  if start < 0 \<or> end < 0 \<or> start > end \<or> start \<ge> fileSize then None
                  else Some (start, min end (fileSize - 1))))"

text \<open>
  route.ts, \<open>GET\<close>.  What the handler learns from the request path and the file
  system before it looks at the Range header is the record \<open>FileLookup\<close>; the
  response keeps the status, the two headers the range logic sets, the cache
  header and which bytes of the file the body streams.
\<close>

record FileLookup =
  has_segments :: bool
  sanitize_ok :: bool
  inside_content_dir :: bool
  file_exists :: bool
  is_file :: bool
  file_ext :: string
  file_size :: int

datatype Body = JsonError string | PlainText string | FileRange int int | WholeFile

record Response =
  status :: nat
  content_length :: "string option"
  content_range :: "string option"
  cache_control :: "string option"
  body :: Body

definition STREAMABLE_EXTENSIONS :: "string set" where
  "STREAMABLE_EXTENSIONS = {''.mp4'', ''.webm'', ''.ts''}"

definition getCacheHeaders :: "string \<Rightarrow> string" where
  "getCacheHeaders ext =
     (if ext = ''.m3u8'' then ''public, max-age=10''
      else if ext = ''.ts'' then ''public, max-age=31536000, immutable''
      else if ext \<in> {''.webp'', ''.jpg'', ''.jpeg'', ''.png''} then ''public, max-age=2592000''
      else if ext \<in> {''.mp4'', ''.webm''} then ''public, max-age=31536000, immutable''
      else ''public, max-age=31536000, immutable'')"

definition json_error :: "nat \<Rightarrow> string \<Rightarrow> Response" where
  "json_error code msg =
     \<lparr>status = code, content_length = None, content_range = None,
      cache_control = None, body = JsonError msg\<rparr>"

definition GET :: "FileLookup \<Rightarrow> string option \<Rightarrow> Response" where
  "GET f rangeHeader =
     (if \<not> has_segments f then json_error 400 ''File path required''
      else if \<not> sanitize_ok f then json_error 400 ''Invalid path''
      else if \<not> inside_content_dir f then json_error 403 ''Access denied''
      else if \<not> file_exists f then json_error 404 ''File not found''
      else if \<not> is_file f then json_error 400 ''Not a file''
      else
        (let ext = file_ext f;
             isStreamable = (ext \<in> STREAMABLE_EXTENSIONS);
             full = \<lparr>status = 200, content_length = Some (show_int (file_size f)),
                     content_range = None, cache_control = Some (getCacheHeaders ext),
                     body = WholeFile\<rparr>
         in case rangeHeader of
              None \<Rightarrow> full
            | Some h \<Rightarrow>
                if h \<noteq> [] \<and> isStreamable then
                  (case parseRangeHeader h (file_size f) of
                     None \<Rightarrow>
                       \<lparr>status = 416, content_length = None,
                        content_range = Some (''bytes */'' @ show_int (file_size f)),
                        cache_control = None, body = PlainText ''Range Not Satisfiable''\<rparr>
                   | Some (start, end) \<Rightarrow>
                       (let chunkSize = end - start + 1
                        in \<lparr>status = 206, content_length = Some (show_int chunkSize),
                            content_range =
                              Some (''bytes '' @ show_int start @ ''-'' @ show_int end
                                    @ ''/'' @ show_int (file_size f)),
                            cache_control = Some (getCacheHeaders ext),
                            body = FileRange start end\<rparr>))
                else full))"

text \<open>A request for a file that exists under the content root, is a regular file
  and has a streamable extension.\<close>

definition streamable_file :: "FileLookup \<Rightarrow> bool" where
  "streamable_file f =
     (has_segments f \<and> sanitize_ok f \<and> inside_content_dir f \<and> file_exists f \<and> is_file f
      \<and> file_ext f \<in> STREAMABLE_EXTENSIONS \<and> 0 \<le> file_size f)"

section \<open>Webhook dispatcher\<close>

text \<open>types/index.ts: \<open>JobStatus\<close>, \<open>VideoPaths\<close>, \<open>HLSUrls\<close>, \<open>JobResult\<close>,
  \<open>WebhookPayload\<close>.  \<open>VideoUrls\<close>, the per-quality entries of \<open>VideoPaths\<close>
  (keys \<open>compressed_480p\<close> ...) and of \<open>HLSUrls\<close> are string-keyed tables.  The statistics fields (floating-point
  ratios and times) and the timestamp are left out of the model.\<close>

datatype JobStatus = pending | processing | completed | failed | dead_letter

record VideoPaths =
  vp_source :: string
  vp_original :: string
  vp_output_dir :: string
  vp_compressed :: "string \<rightharpoonup> string"

record HLSUrls =
  hls_master :: string
  hls_variants :: "string \<rightharpoonup> string"

record JobResult =
  jr_success :: bool
  jr_message :: "string option"
  jr_error :: "string option"
  jr_urls :: "(string \<rightharpoonup> string) option"
  jr_paths :: "VideoPaths option"
  jr_hlsUrls :: "HLSUrls option"
  jr_thumbnailUrl :: "string option"
  jr_jobId :: string
  jr_postId :: int

record WebhookPayload =
  wp_jobId :: string
  wp_postId :: int
  wp_status :: JobStatus
  wp_progress :: "int option"
  wp_stage :: "string option"
  wp_result :: "JobResult option"
  wp_error :: "string option"
  wp_compressedUrls :: "string \<rightharpoonup> string"
  wp_compressedThumbnailWebp :: "string option"
  wp_hlsMasterUrl :: "string option"
  wp_hlsUrls :: "string \<rightharpoonup> string"

text \<open>webhook.ts, class \<open>WebhookThrottler\<close>: two maps keyed by job id.\<close>

record WebhookThrottler =
  lastProgress :: "string \<rightharpoonup> int"
  lastSentTime :: "string \<rightharpoonup> int"

text \<open>\<open>shouldSend\<close>; \<open>now\<close> is the value \<open>Date.now()\<close> returns in the call.\<close>

definition shouldSend :: "WebhookThrottler \<Rightarrow> string \<Rightarrow> int \<Rightarrow> int \<Rightarrow> bool \<times> WebhookThrottler" where
  "shouldSend t jobId newProgress now =
     (let lastProg = (case lastProgress t jobId of None \<Rightarrow> 0 | Some v \<Rightarrow> num_or v 0);
          lastTime = (case lastSentTime t jobId of None \<Rightarrow> 0 | Some v \<Rightarrow> num_or v 0)
      in if (newProgress - lastProg \<ge> 5) \<or>
            (now - lastTime > 3000) \<or>
            (newProgress = 100) \<or>
            (newProgress = 0 \<and> lastProg = 0)
         then (True, t\<lparr>lastProgress := (lastProgress t)(jobId \<mapsto> newProgress),
                        lastSentTime := (lastSentTime t)(jobId \<mapsto> now)\<rparr>)
         else (False, t))"

definition cleanup :: "WebhookThrottler \<Rightarrow> string \<Rightarrow> WebhookThrottler" where
  "cleanup t jobId =
     t\<lparr>lastProgress := (lastProgress t)(jobId := None),
       lastSentTime := (lastSentTime t)(jobId := None)\<rparr>"

text \<open>
  The state the dispatcher works on: the module-level throttler, the HTTP POSTs made
  so far (one entry per \<open>sendWebhookOnce\<close>), the progress values written to the
  broker by \<open>updateJobProgress\<close>, and how many times the clock has been read.
  The environment is the configuration, the clock (\<open>now_at k\<close> is the k-th reading
  of \<open>Date.now()\<close>) and the endpoint (\<open>post_ok k\<close>: the k-th POST gets a 2xx answer).
\<close>

record DispatchState =
  throttler :: WebhookThrottler
  posted :: "WebhookPayload list"
  progress_updates :: "(string \<times> int) list"
  clock_reads :: nat

record DispatchEnv =
  env_cfg :: Config
  now_at :: "nat \<Rightarrow> int"
  post_ok :: "nat \<Rightarrow> bool"

definition WEBHOOK_MAX_RETRIES :: nat where
  "WEBHOOK_MAX_RETRIES = 3"

text \<open>\<open>sendWebhook\<close>: the retry loop, counted down on the attempts that remain.\<close>

fun sendWebhook_attempts :: "DispatchEnv \<Rightarrow> nat \<Rightarrow> WebhookPayload \<Rightarrow> DispatchState \<Rightarrow> bool \<times> DispatchState" where
  "sendWebhook_attempts env 0 payload st = (False, st)"
| "sendWebhook_attempts env (Suc k) payload st =
     (let ok = post_ok env (length (posted st));
          st' = st\<lparr>posted := posted st @ [payload]\<rparr>
      in if ok then (True, st') else sendWebhook_attempts env k payload st')"

definition sendWebhook :: "DispatchEnv \<Rightarrow> WebhookPayload \<Rightarrow> DispatchState \<Rightarrow> bool \<times> DispatchState" where
  "sendWebhook env payload st =
     (let url = wordpress_webhook_url (env_cfg env)
      in if url = [] then (True, st)
         else sendWebhook_attempts env WEBHOOK_MAX_RETRIES payload st)"

definition empty_payload :: "string \<Rightarrow> int \<Rightarrow> JobStatus \<Rightarrow> WebhookPayload" where
  "empty_payload jobId postId st =
     \<lparr>wp_jobId = jobId, wp_postId = postId, wp_status = st, wp_progress = None,
      wp_stage = None, wp_result = None, wp_error = None, wp_compressedUrls = Map.empty,
      wp_compressedThumbnailWebp = None, wp_hlsMasterUrl = None, wp_hlsUrls = Map.empty\<rparr>"

definition sendProgressUpdate ::
  "DispatchEnv \<Rightarrow> string \<Rightarrow> int \<Rightarrow> JobStatus \<Rightarrow> int \<Rightarrow> string \<Rightarrow> DispatchState \<Rightarrow> bool \<times> DispatchState" where
  "sendProgressUpdate env jobId postId st progress stage s =
     (let now = now_at env (clock_reads s);
          (send, t') = shouldSend (throttler s) jobId progress now;
          s1 = s\<lparr>throttler := t', clock_reads := Suc (clock_reads s)\<rparr>
      in if \<not> send then (True, s1)
         else sendWebhook env
                ((empty_payload jobId postId st)\<lparr>wp_progress := Some progress, wp_stage := Some stage\<rparr>)
                s1)"

definition sendCompletionWebhook ::
  "DispatchEnv \<Rightarrow> string \<Rightarrow> int \<Rightarrow> JobResult \<Rightarrow> DispatchState \<Rightarrow> bool \<times> DispatchState" where
  "sendCompletionWebhook env jobId postId result s =
     (let s1 = s\<lparr>throttler := cleanup (throttler s) jobId\<rparr>;
          p0 = (empty_payload jobId postId (if jr_success result then completed else failed))
                 \<lparr>wp_progress := Some 100, wp_stage := Some ''complete'', wp_result := Some result\<rparr>;
          p1 = (case jr_urls result of
                  Some urls \<Rightarrow>
                    if jr_success result then
                      p0\<lparr>wp_compressedUrls :=
                            urls |` {''compressed_480p'', ''compressed_360p'',
                                     ''compressed_240p'', ''compressed_144p''},
                         wp_compressedThumbnailWebp :=
                            (case urls ''thumbnail_webp'' of
                               Some u \<Rightarrow> if u = [] then jr_thumbnailUrl result else Some u
                             | None \<Rightarrow> jr_thumbnailUrl result)\<rparr>
                    else p0
                | None \<Rightarrow> p0);
          p2 = (case jr_hlsUrls result of
                  Some h \<Rightarrow>
                    if jr_success result then
                      p1\<lparr>wp_hlsMasterUrl := Some (hls_master h),
                         wp_hlsUrls := hls_variants h |` {''480p'', ''360p'', ''240p'', ''144p''}\<rparr>
                    else p1
                | None \<Rightarrow> p1)
      in sendWebhook env p2 s1)"

definition sendFailureWebhook ::
  "DispatchEnv \<Rightarrow> string \<Rightarrow> int \<Rightarrow> string \<Rightarrow> DispatchState \<Rightarrow> bool \<times> DispatchState" where
  "sendFailureWebhook env jobId postId err s =
     (let s1 = s\<lparr>throttler := cleanup (throttler s) jobId\<rparr>
      in sendWebhook env
           ((empty_payload jobId postId failed)
              \<lparr>wp_progress := Some 0, wp_stage := Some ''error'', wp_error := Some err\<rparr>)
           s1)"

section \<open>Queue and worker\<close>

text \<open>types/index.ts, \<open>VideoJobData\<close> (the fields the worker reads), and the part of a
  BullMQ \<open>Job\<close> the sources touch: its data, \<open>attemptsMade\<close> and the options
  it was added with.\<close>

record VideoJobData =
  jobId :: string
  postId :: int
  wpMediaPath :: string
  wpVideoUrl :: string
  wpThumbnailPath :: "string option"
  wpThumbnailUrl :: "string option"
  year :: int
  month :: int
  job_status :: JobStatus
  attempts :: int






record HLSConversionResult =
  hls_success :: bool
  hls_urls :: "HLSUrls option"
  hls_qualities :: "string list"
  hls_segment_duration :: "int option"
  hls_error :: "string option"

record ImageCompressionResult =
  img_success :: bool
  img_publicUrl :: "string option"
  img_error :: "string option"


definition updateJobProgress :: "string \<Rightarrow> int \<Rightarrow> DispatchState \<Rightarrow> DispatchState" where
  "updateJobProgress jid percent s = s\<lparr>progress_updates := progress_updates s @ [(jid, percent)]\<rparr>"

text \<open>
  The progress callback of \<open>processJob\<close> is an async function,
  \<open>await updateJobProgress(jobId, percent); await sendProgressUpdate(...)\<close>, and
  \<open>compressVideoJob\<close> calls it as \<open>onProgress?.(percent, stage)\<close> without
  \<open>await\<close>.  A call therefore stays in flight while the attempt goes on: it first
  waits for the broker, then decides on the webhook and issues the POST, then, if
  the POST failed, issues it again up to the limit of \<open>sendWebhook\<close>.  A call in
  flight is in one of these states: \<open>Invoked\<close>, waiting for the broker to write
  the progress; \<open>Updated\<close>, about to run \<open>sendProgressUpdate\<close>; \<open>Sending\<close>, inside
  \<open>sendWebhook\<close> with a POST that failed and so many attempts left; \<open>Settled\<close>,
  finished.  A step takes it to the next state.
\<close>

datatype Callback =
    Invoked int string
  | Updated int string
  | Sending WebhookPayload nat
  | Settled

text \<open>The payloads the dispatcher builds, and \<open>sendWebhookOnce\<close>: one POST to the
  endpoint, with its answer.\<close>

definition progress_payload :: "string \<Rightarrow> int \<Rightarrow> JobStatus \<Rightarrow> int \<Rightarrow> string \<Rightarrow> WebhookPayload" where
  "progress_payload jid pid st progress stage =
     (empty_payload jid pid st)\<lparr>wp_progress := Some progress, wp_stage := Some stage\<rparr>"

definition failure_payload :: "string \<Rightarrow> int \<Rightarrow> string \<Rightarrow> WebhookPayload" where
  "failure_payload jid pid err =
     (empty_payload jid pid failed)
       \<lparr>wp_progress := Some 0, wp_stage := Some ''error'', wp_error := Some err\<rparr>"

definition completion_payload :: "string \<Rightarrow> int \<Rightarrow> JobResult \<Rightarrow> WebhookPayload" where
  "completion_payload jid pid result =
     (let p0 = (empty_payload jid pid (if jr_success result then completed else failed))
                 \<lparr>wp_progress := Some 100, wp_stage := Some ''complete'', wp_result := Some result\<rparr>;
          p1 = (case jr_urls result of
                  Some urls \<Rightarrow>
                    if jr_success result then
                      p0\<lparr>wp_compressedUrls :=
                            urls |` {''compressed_480p'', ''compressed_360p'',
                                     ''compressed_240p'', ''compressed_144p''},
                         wp_compressedThumbnailWebp :=
                            (case urls ''thumbnail_webp'' of
                               Some u \<Rightarrow> if u = [] then jr_thumbnailUrl result else Some u
                             | None \<Rightarrow> jr_thumbnailUrl result)\<rparr>
                    else p0
                | None \<Rightarrow> p0)
      in case jr_hlsUrls result of
           Some h \<Rightarrow>
             if jr_success result then
               p1\<lparr>wp_hlsMasterUrl := Some (hls_master h),
                  wp_hlsUrls := hls_variants h |` {''480p'', ''360p'', ''240p'', ''144p''}\<rparr>
             else p1
         | None \<Rightarrow> p1)"

definition sendWebhookOnce :: "DispatchEnv \<Rightarrow> WebhookPayload \<Rightarrow> DispatchState \<Rightarrow> bool \<times> DispatchState" where
  "sendWebhookOnce env payload s =
     (post_ok env (length (posted s)), s\<lparr>posted := posted s @ [payload]\<rparr>)"

text \<open>The call of \<open>webhookThrottler.shouldSend\<close> in \<open>sendProgressUpdate\<close>, on the
  state of the dispatcher.\<close>

definition throttle :: "DispatchEnv \<Rightarrow> string \<Rightarrow> int \<Rightarrow> DispatchState \<Rightarrow> bool \<times> DispatchState" where
  "throttle env jid progress s =
     (let now = now_at env (clock_reads s);
          (send, t') = shouldSend (throttler s) jid progress now
      in (send, s\<lparr>throttler := t', clock_reads := Suc (clock_reads s)\<rparr>))"

text \<open>
  One step of a callback in flight, for the job \<open>jid\<close> of post \<open>pid\<close> that the
  callback closes over.  \<open>Invoked\<close>: the broker has written the progress.
  \<open>Updated\<close>: \<open>sendProgressUpdate\<close> runs up to its first \<open>await\<close>, that is the
  throttler decides and, if it allows the event and an endpoint is configured, the
  first POST is issued.  \<open>Sending payload left\<close>: the POST before failed and the
  delay is over; the next POST is issued, \<open>left\<close> attempts being left.
\<close>

definition attempt_post :: "DispatchEnv \<Rightarrow> WebhookPayload \<Rightarrow> nat \<Rightarrow> DispatchState \<Rightarrow> DispatchState \<times> Callback" where
  "attempt_post env payload left s =
     (case left of
        0 \<Rightarrow> (s, Settled)
      | Suc k \<Rightarrow>
          (let (ok, s') = sendWebhookOnce env payload s
           in (s', if ok \<or> k = 0 then Settled else Sending payload k)))"

definition callback_step :: "DispatchEnv \<Rightarrow> string \<Rightarrow> int \<Rightarrow> Callback \<Rightarrow> DispatchState \<Rightarrow> DispatchState \<times> Callback" where
  "callback_step env jid pid cb s =
     (case cb of
        Invoked percent stage \<Rightarrow> (updateJobProgress jid percent s, Updated percent stage)
      | Updated percent stage \<Rightarrow>
          (let (send, s1) = throttle env jid percent s
           in if \<not> send \<or> wordpress_webhook_url (env_cfg env) = [] then (s1, Settled)
              else attempt_post env (progress_payload jid pid processing percent stage)
                     WEBHOOK_MAX_RETRIES s1)
      | Sending payload left \<Rightarrow> attempt_post env payload left s
      | Settled \<Rightarrow> (s, Settled))"

text \<open>
  The worker runs on the single-threaded event loop of the platform.  While the
  attempt waits at an \<open>await\<close>, the loop may let callbacks in flight take steps;
  which ones, and how many, depends on when the broker and the endpoint answer.
  That is the schedule, a parameter of the model: for the k-th \<open>await\<close> of the
  attempt it lists the callbacks that take a step before the attempt goes on, each
  by its position in the order of the calls (a position that is not in flight is
  skipped).  Every run of the worker follows one of these schedules; what holds
  for every schedule holds for every run.  The state of the worker is the state of
  the dispatcher, the callbacks in flight (those of the job of this attempt) and
  the number of awaits passed.
\<close>

type_synonym Schedule = "nat \<Rightarrow> nat list"

record WorkerState =
  dispatch :: DispatchState
  in_flight :: "Callback list"
  awaits :: nat

fun resume_callbacks :: "DispatchEnv \<Rightarrow> string \<Rightarrow> int \<Rightarrow> nat list \<Rightarrow> WorkerState \<Rightarrow> WorkerState" where
  "resume_callbacks env jid pid [] ws = ws"
| "resume_callbacks env jid pid (i # rest) ws =
     resume_callbacks env jid pid rest
       (if i < length (in_flight ws) then
          (let (s', cb') = callback_step env jid pid (in_flight ws ! i) (dispatch ws)
           in ws\<lparr>dispatch := s', in_flight := (in_flight ws)[i := cb']\<rparr>)
        else ws)"

definition await :: "DispatchEnv \<Rightarrow> Schedule \<Rightarrow> string \<Rightarrow> int \<Rightarrow> WorkerState \<Rightarrow> WorkerState" where
  "await env sch jid pid ws =
     resume_callbacks env jid pid (sch (awaits ws)) (ws\<lparr>awaits := Suc (awaits ws)\<rparr>)"


fun await_attempts ::
  "DispatchEnv \<Rightarrow> Schedule \<Rightarrow> string \<Rightarrow> int \<Rightarrow> nat \<Rightarrow> WebhookPayload \<Rightarrow> WorkerState \<Rightarrow> bool \<times> WorkerState" where
  "await_attempts env sch jid pid 0 payload ws = (False, ws)"
| "await_attempts env sch jid pid (Suc left) payload ws =
     (let (ok, s') = sendWebhookOnce env payload (dispatch ws);
          ws1 = await env sch jid pid (ws\<lparr>dispatch := s'\<rparr>)
      in if ok then (True, ws1)
         else if left = 0 then (False, ws1)
         else await_attempts env sch jid pid left payload (await env sch jid pid ws1))"

definition await_sendWebhook ::
  "DispatchEnv \<Rightarrow> Schedule \<Rightarrow> string \<Rightarrow> int \<Rightarrow> WebhookPayload \<Rightarrow> WorkerState \<Rightarrow> bool \<times> WorkerState" where
  "await_sendWebhook env sch jid pid payload ws =
     (if wordpress_webhook_url (env_cfg env) = [] then (True, await env sch jid pid ws)
      else await_attempts env sch jid pid WEBHOOK_MAX_RETRIES payload ws)"

definition await_sendProgressUpdate ::
  "DispatchEnv \<Rightarrow> Schedule \<Rightarrow> string \<Rightarrow> int \<Rightarrow> JobStatus \<Rightarrow> int \<Rightarrow> string \<Rightarrow> WorkerState
     \<Rightarrow> bool \<times> WorkerState" where
  "await_sendProgressUpdate env sch jid pid st progress stage ws =
     (let (send, s1) = throttle env jid progress (dispatch ws);
          ws1 = ws\<lparr>dispatch := s1\<rparr>
      in if \<not> send then (True, await env sch jid pid ws1)
         else await_sendWebhook env sch jid pid (progress_payload jid pid st progress stage) ws1)"

definition await_sendCompletionWebhook ::
  "DispatchEnv \<Rightarrow> Schedule \<Rightarrow> string \<Rightarrow> int \<Rightarrow> JobResult \<Rightarrow> WorkerState \<Rightarrow> bool \<times> WorkerState" where
  "await_sendCompletionWebhook env sch jid pid result ws =
     await_sendWebhook env sch jid pid (completion_payload jid pid result)
       (ws\<lparr>dispatch := (dispatch ws)\<lparr>throttler := cleanup (throttler (dispatch ws)) jid\<rparr>\<rparr>)"

definition await_sendFailureWebhook ::
  "DispatchEnv \<Rightarrow> Schedule \<Rightarrow> string \<Rightarrow> int \<Rightarrow> string \<Rightarrow> WorkerState \<Rightarrow> bool \<times> WorkerState" where
  "await_sendFailureWebhook env sch jid pid err ws =
     await_sendWebhook env sch jid pid (failure_payload jid pid err)
       (ws\<lparr>dispatch := (dispatch ws)\<lparr>throttler := cleanup (throttler (dispatch ws)) jid\<rparr>\<rparr>)"










definition is_failure_payload :: "string \<Rightarrow> WebhookPayload \<Rightarrow> bool" where
  "is_failure_payload jid p =
     (wp_jobId p = jid \<and> wp_status p = failed \<and> wp_stage p = Some ''error''
      \<and> wp_progress p = Some 0 \<and> wp_error p \<noteq> None)"



definition example_env :: DispatchEnv where
  "example_env =
     \<lparr>env_cfg = \<lparr>base_url = ''https://media.example.com'', hls_time = 2,
                 allowed_download_domains = [''*''],
                 wordpress_webhook_url = ''https://wp.example.com/hook''\<rparr>,
      now_at = (\<lambda>k. 1700000000000 + 1000 * int k),
      post_ok = (\<lambda>k. True)\<rparr>"

definition initial_state :: DispatchState where
  "initial_state =
     \<lparr>throttler = \<lparr>lastProgress = Map.empty, lastSentTime = Map.empty\<rparr>,
      posted = [], progress_updates = [], clock_reads = 0\<rparr>"




section \<open>Probing and validating the input video\<close>

text \<open>
  Durations and megabyte sizes are JavaScript floating-point numbers; the model
  computes with exact rationals.  \<open>Math.round(x)\<close> is \<open>\<lfloor>x + 1/2\<rfloor>\<close>.  The file system is
  a table from paths to file sizes; \<open>ffprobe\<close> is the environment's answer for a path.
\<close>

type_synonym Fs = "string \<rightharpoonup> int"

definition lower_char :: "char \<Rightarrow> char" where
  "lower_char c =
     (let n = (of_char c :: nat) in if 65 \<le> n \<and> n \<le> 90 then char_of (n + 32) else c)"

definition toLowerCase :: "string \<Rightarrow> string" where
  "toLowerCase s = map lower_char s"

definition Math_round :: "rat \<Rightarrow> int" where
  "Math_round x = \<lfloor>x + 1 / 2\<rfloor>"

definition round2 :: "rat \<Rightarrow> rat" where
  "round2 x = of_int (Math_round (x * 100)) / 100"

text \<open>\<open>x.toFixed(2)\<close> and \<open>String(x)\<close> for a non-negative number with at most two
  decimals.\<close>

definition pad2 :: "int \<Rightarrow> string" where
  "pad2 n = (if n < 10 then CHR ''0'' # show_int n else show_int n)"

definition toFixed2 :: "rat \<Rightarrow> string" where
  "toFixed2 x = (let n = Math_round (x * 100) in show_int (n div 100) @ ''.'' @ pad2 (n mod 100))"

definition show_hundredths :: "rat \<Rightarrow> string" where
  "show_hundredths x =
     (let n = Math_round (x * 100); i = n div 100; f = n mod 100
      in if f = 0 then show_int i
         else if f mod 10 = 0 then show_int i @ ''.'' @ show_int (f div 10)
         else show_int i @ ''.'' @ pad2 f)"

text \<open>\<open>path.basename\<close> and \<open>path.extname\<close> on a path without a trailing slash.\<close>

definition basename :: "string \<Rightarrow> string" where
  "basename p = rev (takeWhile (\<lambda>c. c \<noteq> CHR ''/'') (rev p))"

definition extname :: "string \<Rightarrow> string" where
  "extname p =
     (let b = basename p;
          e = rev (takeWhile (\<lambda>c. c \<noteq> CHR ''.'') (rev b))
      in if CHR ''.'' \<notin> set b \<or> b = ''..'' \<or> length e + 1 = length b then []
         else CHR ''.'' # e)"

record FfprobeFormat =
  fmt_duration :: "rat option"
  fmt_bit_rate :: "int option"
  fmt_format_name :: "string option"

record FfprobeStream =
  codec_type :: string
  codec_name :: "string option"
  st_width :: "int option"
  st_height :: "int option"

datatype Ffprobe = FfprobeError string | FfprobeData "FfprobeFormat option" "FfprobeStream list option"

text \<open>types/index.ts, \<open>VideoInfo\<close> (without the frame-rate fields).\<close>

record VideoInfo =
  vi_valid :: bool
  vi_corrupted :: bool
  vi_error :: "string option"
  vi_duration :: rat
  vi_video_codec :: "string option"
  vi_audio_codec :: "string option"
  vi_container :: "string option"
  vi_width :: int
  vi_height :: int
  vi_resolution :: "string option"
  vi_bitrate :: int
  vi_file_size :: int
  vi_file_size_mb :: rat

definition initial_info :: VideoInfo where
  "initial_info =
     \<lparr>vi_valid = False, vi_corrupted = False, vi_error = None, vi_duration = 0,
      vi_video_codec = None, vi_audio_codec = None, vi_container = None, vi_width = 0,
      vi_height = 0, vi_resolution = None, vi_bitrate = 0, vi_file_size = 0,
      vi_file_size_mb = 0\<rparr>"

text \<open>\<open>stream.codec_name?.toLowerCase() || null\<close>: a missing or empty name is null.\<close>

definition codec_of :: "FfprobeStream \<Rightarrow> string option" where
  "codec_of stream =
     (case codec_name stream of
        None \<Rightarrow> None
      | Some n \<Rightarrow> if n = [] then None else Some (toLowerCase n))"

definition opt_or0 :: "int option \<Rightarrow> int" where
  "opt_or0 v = (case v of None \<Rightarrow> 0 | Some n \<Rightarrow> n)"

text \<open>One round of the loop over \<open>metadata.streams\<close> in \<open>getVideoInfo\<close>; the flag is
  \<open>hasVideoStream\<close>.\<close>

definition stream_step :: "VideoInfo \<times> bool \<Rightarrow> FfprobeStream \<Rightarrow> VideoInfo \<times> bool" where
  "stream_step acc stream =
     (case acc of (info, hasVideoStream) \<Rightarrow>
        (let (info1, hv1) =
               (if codec_type stream = ''video'' \<and> vi_video_codec info = None then
                  (info\<lparr>vi_video_codec := codec_of stream,
                        vi_width := opt_or0 (st_width stream),
                        vi_height := opt_or0 (st_height stream),
                        vi_resolution := Some (show_int (opt_or0 (st_width stream)) @ ''x''
                                               @ show_int (opt_or0 (st_height stream)))\<rparr>, True)
                else (info, hasVideoStream));
             info2 =
               (if codec_type stream = ''audio'' \<and> vi_audio_codec info1 = None
                then info1\<lparr>vi_audio_codec := codec_of stream\<rparr>
                else info1)
         in (info2, hv1)))"

text \<open>ffmpeg.ts, \<open>getVideoInfo\<close>.\<close>

definition getVideoInfo :: "Fs \<Rightarrow> (string \<Rightarrow> Ffprobe) \<Rightarrow> string \<Rightarrow> VideoInfo" where
  "getVideoInfo fs ffprobe filePath =
     (case fs filePath of
        None \<Rightarrow> initial_info\<lparr>vi_error := Some ''File not found'', vi_corrupted := True\<rparr>
      | Some sz \<Rightarrow>
          (let info0 = initial_info
                 \<lparr>vi_file_size := sz,
                  vi_file_size_mb := round2 (of_int sz / (1024 * 1024)),
                  vi_container := Some (toLowerCase (drop 1 (extname filePath)))\<rparr>
           in case ffprobe filePath of
                FfprobeError msg \<Rightarrow>
                  info0\<lparr>vi_corrupted := True, vi_error := Some (''ffprobe failed: '' @ msg)\<rparr>
              | FfprobeData format None \<Rightarrow>
                  info0\<lparr>vi_corrupted := True, vi_error := Some ''No streams found in video''\<rparr>
              | FfprobeData format (Some streams) \<Rightarrow>
                  (let info1 =
                         (case format of
                            None \<Rightarrow> info0
                          | Some f \<Rightarrow>
                              (let i = info0
                                     \<lparr>vi_duration :=
                                        round2 (case fmt_duration f of None \<Rightarrow> 0 | Some d \<Rightarrow> d),
                                      vi_bitrate := opt_or0 (fmt_bit_rate f)\<rparr>
                               in case fmt_format_name f of
                                    None \<Rightarrow> i
                                  | Some n \<Rightarrow>
                                      if n = [] then i
                                      else i\<lparr>vi_container :=
                                             Some (toLowerCase
                                                     (takeWhile (\<lambda>c. c \<noteq> CHR '','') n))\<rparr>));
                       (info2, hasVideoStream) = foldl stream_step (info1, False) streams
                   in if \<not> hasVideoStream then
                        info2\<lparr>vi_corrupted := True,
                              vi_error := Some ''No video stream found in file''\<rparr>
                      else if vi_duration info2 \<le> 0 \<or> vi_width info2 \<le> 0 \<or> vi_height info2 \<le> 0 then
                        info2\<lparr>vi_corrupted := True,
                              vi_error := Some ''Invalid video metadata (zero duration or dimensions)''\<rparr>
                      else info2\<lparr>vi_valid := True\<rparr>)))"

text \<open>types/index.ts, \<open>VIDEO_VALIDATION\<close> and \<open>ERROR_CODES\<close>.\<close>

definition MAX_DURATION :: rat where
  "MAX_DURATION = 300"

definition MAX_SIZE_MB :: rat where
  "MAX_SIZE_MB = 100"

definition ALLOWED_CODECS :: "string list" where
  "ALLOWED_CODECS = [''h264'', ''hevc'', ''h265'', ''vp8'', ''vp9'', ''prores'', ''mpeg4'', ''av1'']"

definition ALLOWED_CONTAINERS :: "string list" where
  "ALLOWED_CONTAINERS = [''mp4'', ''mov'', ''webm'', ''mkv'']"

definition DURATION_TOO_LONG :: string where "DURATION_TOO_LONG = ''DURATION_TOO_LONG''"
definition FILE_TOO_LARGE :: string where "FILE_TOO_LARGE = ''FILE_TOO_LARGE''"
definition INVALID_CODEC :: string where "INVALID_CODEC = ''INVALID_CODEC''"
definition VIDEO_CORRUPTED :: string where "VIDEO_CORRUPTED = ''VIDEO_CORRUPTED''"
definition FILE_NOT_FOUND :: string where "FILE_NOT_FOUND = ''FILE_NOT_FOUND''"
definition INVALID_CONTAINER :: string where "INVALID_CONTAINER = ''INVALID_CONTAINER''"
definition DOWNLOAD_FAILED :: string where "DOWNLOAD_FAILED = ''DOWNLOAD_FAILED''"

record ValidationResult =
  vr_valid :: bool
  vr_errors :: "string list"
  vr_error_code :: "string option"
  vr_video_info :: "VideoInfo option"

text \<open>video-compressor.ts, \<open>validateInputVideo\<close>.\<close>

definition validateInputVideo :: "Fs \<Rightarrow> (string \<Rightarrow> Ffprobe) \<Rightarrow> string \<Rightarrow> ValidationResult" where
  "validateInputVideo fs ffprobe filePath =
     (let result = \<lparr>vr_valid = True, vr_errors = [], vr_error_code = None, vr_video_info = None\<rparr>
      in case fs filePath of
           None \<Rightarrow>
             result\<lparr>vr_valid := False,
                    vr_errors := [''Video file not found: '' @ filePath],
                    vr_error_code := Some FILE_NOT_FOUND\<rparr>
         | Some sz \<Rightarrow>
             (let fileSizeMB = (of_int sz :: rat) / (1024 * 1024)
              in if fileSizeMB > MAX_SIZE_MB then
                   result\<lparr>vr_valid := False,
                          vr_errors := [''File size '' @ toFixed2 fileSizeMB @ '' MB exceeds maximum ''
                                        @ show_hundredths MAX_SIZE_MB @ '' MB''],
                          vr_error_code := Some FILE_TOO_LARGE\<rparr>
                 else
                   (let videoInfo = getVideoInfo fs ffprobe filePath;
                        result1 = result\<lparr>vr_video_info := Some videoInfo\<rparr>
                    in if vi_corrupted videoInfo \<or> \<not> vi_valid videoInfo then
                         result1\<lparr>vr_valid := False,
                                 vr_errors := [''Video file is corrupted: ''
                                               @ (case vi_error videoInfo of
                                                    None \<Rightarrow> ''null'' | Some e \<Rightarrow> e)],
                                 vr_error_code := Some VIDEO_CORRUPTED\<rparr>
                       else if vi_duration videoInfo > MAX_DURATION then
                         result1\<lparr>vr_valid := False,
                                 vr_errors := [''Duration '' @ show_hundredths (vi_duration videoInfo)
                                               @ ''s exceeds maximum ''
                                               @ show_hundredths MAX_DURATION @ ''s''],
                                 vr_error_code := Some DURATION_TOO_LONG\<rparr>
                       else
                         (case vi_video_codec videoInfo of
                            None \<Rightarrow> result1
                          | Some c \<Rightarrow>
                              if c \<notin> set ALLOWED_CODECS then
                                result1\<lparr>vr_valid := False,
                                        vr_errors := [''Codec '' @ [CHR 39] @ c @ [CHR 39]
                                                      @ '' not supported''],
                                        vr_error_code := Some INVALID_CODEC\<rparr>
                              else result1))))"

text \<open>Example inputs: an upload directory holding one file, and what \<open>ffprobe\<close>
  reports for a file with one H.264 video stream and one AAC audio stream.\<close>

definition example_probe :: "rat \<Rightarrow> string \<Rightarrow> Ffprobe" where
  "example_probe d fmt =
     FfprobeData
       (Some \<lparr>fmt_duration = Some d, fmt_bit_rate = Some 4000000, fmt_format_name = Some fmt\<rparr>)
       (Some [\<lparr>codec_type = ''video'', codec_name = Some ''h264'',
               st_width = Some 1280, st_height = Some 720\<rparr>,
              \<lparr>codec_type = ''audio'', codec_name = Some ''aac'',
               st_width = None, st_height = None\<rparr>])"

section \<open>HLS conversion and the master playlist\<close>

text \<open>types/index.ts, \<open>HLSQuality\<close> and \<open>HLS_QUALITIES\<close>.\<close>

record HLSQuality =
  hq_resolution :: string
  hq_bandwidth :: int
  hq_avg_bandwidth :: int
  hq_codecs :: string

definition HLS_QUALITIES :: "string \<rightharpoonup> HLSQuality" where
  "HLS_QUALITIES =
     [''480p'' \<mapsto> \<lparr>hq_resolution = ''854x480'', hq_bandwidth = 1300000,
                    hq_avg_bandwidth = 900000, hq_codecs = ''avc1.4d001f,mp4a.40.2''\<rparr>,
      ''360p'' \<mapsto> \<lparr>hq_resolution = ''640x360'', hq_bandwidth = 850000,
                    hq_avg_bandwidth = 600000, hq_codecs = ''avc1.4d001f,mp4a.40.2''\<rparr>,
      ''240p'' \<mapsto> \<lparr>hq_resolution = ''426x240'', hq_bandwidth = 550000,
                    hq_avg_bandwidth = 400000, hq_codecs = ''avc1.4d0015,mp4a.40.2''\<rparr>,
      ''144p'' \<mapsto> \<lparr>hq_resolution = ''256x144'', hq_bandwidth = 325000,
                    hq_avg_bandwidth = 250000, hq_codecs = ''avc1.4d000d,mp4a.40.2''\<rparr>]"

definition newline :: string where
  "newline = [CHR 0x0A]"

definition dquote :: string where
  "dquote = [CHR 0x22]"

text \<open>\<open>path.join\<close> of a directory without a trailing slash and a file name.\<close>

definition path_join :: "string \<Rightarrow> string \<Rightarrow> string" where
  "path_join dir name = dir @ ''/'' @ name"

text \<open>ffmpeg.ts, \<open>convertToHLS\<close>: the output options it hands to the transcoder, and
  what it resolves to.\<close>

definition convertToHLS_outputOptions :: "string \<Rightarrow> string \<Rightarrow> int \<Rightarrow> bool \<Rightarrow> string list" where
  "convertToHLS_outputOptions outputDir quality segmentDuration reencode =
     (let segmentPattern = path_join outputDir (quality @ ''_%03d.ts'')
      in (if reencode then
            [''-c:v libx264'', ''-preset slow'', ''-crf 23'', ''-profile:v main'', ''-level 3.1'',
             ''-pix_fmt yuv420p'',
             ''-force_key_frames expr:gte(t,n_forced*'' @ show_int segmentDuration @ '')'',
             ''-sc_threshold 0'', ''-c:a aac'', ''-b:a 64k'', ''-ar 44100'', ''-ac 2'']
          else [''-c copy''])
         @ [''-f hls'',
            ''-hls_time '' @ show_int segmentDuration,
            ''-hls_list_size 0'',
            ''-hls_segment_filename '' @ segmentPattern,
            ''-hls_playlist_type vod'',
            ''-hls_flags independent_segments+append_list'',
            ''-hls_segment_type mpegts'',
            ''-start_number 0''])"

record SegmentResult =
  seg_success :: bool
  seg_playlist :: "string option"
  seg_segmentCount :: "int option"
  seg_error :: "string option"

record ConvertedQuality =
  cq_playlist :: string
  cq_segmentCount :: int
  cq_mp4Path :: string

text \<open>
  hls-converter.ts, \<open>generateMasterPlaylist\<close>.  \<open>getInfo\<close> is \<open>getVideoInfo\<close> on
  the current file system; \<open>write_error\<close> is the exception \<open>writeFileSync\<close>
  throws, if it does.  The result is the error message of the \<open>catch\<close> branch or
  the path and the content written.  \<open>master_loop\<close> is the loop over
  \<open>qualityOrder\<close>.
\<close>

definition qualityOrder :: "string list" where
  "qualityOrder = [''144p'', ''240p'', ''360p'', ''480p'']"

fun master_loop ::
  "(string \<Rightarrow> VideoInfo) \<Rightarrow> (string \<rightharpoonup> ConvertedQuality) \<Rightarrow> string list \<Rightarrow> string \<Rightarrow> string + string" where
  "master_loop getInfo convertedQualities [] content = Inr content"
| "master_loop getInfo convertedQualities (quality # rest) content =
     (case convertedQualities quality of
        None \<Rightarrow> master_loop getInfo convertedQualities rest content
      | Some qualityData \<Rightarrow>
          (case HLS_QUALITIES quality of
             None \<Rightarrow> Inl ''Cannot read properties of undefined''
           | Some hlsConfig \<Rightarrow>
               (let videoInfo = getInfo (cq_mp4Path qualityData);
                    actualResolution =
                      (if vi_valid videoInfo \<and> vi_width videoInfo > 0 \<and> vi_height videoInfo > 0
                       then show_int (vi_width videoInfo) @ ''x'' @ show_int (vi_height videoInfo)
                       else hq_resolution hlsConfig)
                in master_loop getInfo convertedQualities rest
                     (content
                      @ ''#EXT-X-STREAM-INF:BANDWIDTH='' @ show_int (hq_bandwidth hlsConfig) @ '',''
                      @ ''AVERAGE-BANDWIDTH='' @ show_int (hq_avg_bandwidth hlsConfig) @ '',''
                      @ ''RESOLUTION='' @ actualResolution @ '',''
                      @ ''CODECS='' @ dquote @ hq_codecs hlsConfig @ dquote @ '',''
                      @ ''NAME='' @ dquote @ quality @ dquote @ newline
                      @ quality @ ''.m3u8'' @ newline))))"

definition generateMasterPlaylist ::
  "(string \<Rightarrow> VideoInfo) \<Rightarrow> string option \<Rightarrow> string \<Rightarrow> (string \<rightharpoonup> ConvertedQuality)
     \<Rightarrow> string + (string \<times> string)" where
  "generateMasterPlaylist getInfo write_error hlsDir convertedQualities =
     (let masterPath = path_join hlsDir ''master.m3u8'';
          content = ''#EXTM3U'' @ newline @ ''#EXT-X-VERSION:3'' @ newline @ newline
      in case master_loop getInfo convertedQualities qualityOrder content of
           Inl e \<Rightarrow> Inl e
         | Inr content' \<Rightarrow>
             (case write_error of
                Some e \<Rightarrow> Inl e
              | None \<Rightarrow> Inr (masterPath, content')))"

text \<open>hls-converter.ts, \<open>buildHLSUrl\<close>; \<open>padStart\<close> and the removal of one trailing
  slash from the base URL.\<close>

definition padStart :: "nat \<Rightarrow> char \<Rightarrow> string \<Rightarrow> string" where
  "padStart n c s = replicate (n - length s) c @ s"

definition strip_trailing_slash :: "string \<Rightarrow> string" where
  "strip_trailing_slash s = (if s \<noteq> [] \<and> last s = CHR ''/'' then butlast s else s)"

definition buildHLSUrl :: "Config \<Rightarrow> int \<Rightarrow> int \<Rightarrow> int \<Rightarrow> string \<Rightarrow> string" where
  "buildHLSUrl cfg pid yr mo filename =
     strip_trailing_slash (base_url cfg) @ ''/content/'' @ padStart 4 CHR ''0'' (show_int yr)
     @ ''/'' @ padStart 2 CHR ''0'' (show_int mo) @ ''/'' @ show_int pid @ ''/hls/'' @ filename"

text \<open>
  hls-converter.ts, \<open>convertToHLSStreaming\<close>.  \<open>convertToHLS\<close> is the environment:
  what the segmenter answers for a call.  \<open>hls_loop\<close> is the loop over the four
  qualities; besides \<open>convertedQualities\<close> and \<open>availableQualities\<close> it keeps the
  calls it made to \<open>convertToHLS\<close> (quality, segment duration, re-encode flag).
\<close>

record HlsLoopState =
  convertedQualities :: "string \<rightharpoonup> ConvertedQuality"
  availableQualities :: "string list"
  segmenter_calls :: "(string \<times> int \<times> bool) list"

definition HLS_REENCODE_SEGMENTS :: bool where
  "HLS_REENCODE_SEGMENTS = False"

fun hls_loop ::
  "Fs \<Rightarrow> (string \<Rightarrow> string \<Rightarrow> string \<Rightarrow> int \<Rightarrow> bool \<Rightarrow> SegmentResult) \<Rightarrow> VideoPaths \<Rightarrow> string \<Rightarrow> int
     \<Rightarrow> string list \<Rightarrow> HlsLoopState \<Rightarrow> HlsLoopState" where
  "hls_loop fs convertToHLS paths hlsDir dur [] st = st"
| "hls_loop fs convertToHLS paths hlsDir dur (quality # rest) st =
     (case vp_compressed paths (''compressed_'' @ quality) of
        None \<Rightarrow> hls_loop fs convertToHLS paths hlsDir dur rest st
      | Some mp4Path \<Rightarrow>
          if mp4Path = [] then hls_loop fs convertToHLS paths hlsDir dur rest st
          else if fs mp4Path = None then hls_loop fs convertToHLS paths hlsDir dur rest st
          else
            (let result = convertToHLS mp4Path hlsDir quality dur HLS_REENCODE_SEGMENTS;
                 st1 = st\<lparr>segmenter_calls :=
                            segmenter_calls st @ [(quality, dur, HLS_REENCODE_SEGMENTS)]\<rparr>
             in case (seg_playlist result, seg_segmentCount result) of
                  (Some pl, Some n) \<Rightarrow>
                    if seg_success result \<and> pl \<noteq> [] \<and> n \<noteq> 0 then
                      hls_loop fs convertToHLS paths hlsDir dur rest
                        (st1\<lparr>convertedQualities :=
                                (convertedQualities st1)
                                  (quality \<mapsto> \<lparr>cq_playlist = pl, cq_segmentCount = n,
                                               cq_mp4Path = mp4Path\<rparr>),
                              availableQualities := availableQualities st1 @ [quality]\<rparr>)
                    else hls_loop fs convertToHLS paths hlsDir dur rest st1
                | _ \<Rightarrow> hls_loop fs convertToHLS paths hlsDir dur rest st1))"

definition hls_failure :: "string \<Rightarrow> HLSConversionResult" where
  "hls_failure e =
     \<lparr>hls_success = False, hls_urls = None, hls_qualities = [], hls_segment_duration = None,
      hls_error = Some e\<rparr>"

text \<open>The result, the calls made to the segmenter, and the master playlist written
  (path and content), if one was written.\<close>

definition convertToHLSStreaming ::
  "Config \<Rightarrow> Fs \<Rightarrow> (string \<Rightarrow> Ffprobe) \<Rightarrow> (string \<Rightarrow> string \<Rightarrow> string \<Rightarrow> int \<Rightarrow> bool \<Rightarrow> SegmentResult)
     \<Rightarrow> string option \<Rightarrow> VideoPaths \<Rightarrow> int \<Rightarrow> int \<Rightarrow> int
     \<Rightarrow> HLSConversionResult \<times> (string \<times> int \<times> bool) list \<times> (string \<times> string) option" where
  "convertToHLSStreaming cfg fs ffprobe convertToHLS write_error paths pid yr mo =
     (let HLS_SEGMENT_DURATION = getHlsSegmentDuration cfg;
          hlsDir = path_join (vp_output_dir paths) ''hls'';
          qualities = [''480p'', ''360p'', ''240p'', ''144p''];
          st = hls_loop fs convertToHLS paths hlsDir HLS_SEGMENT_DURATION qualities
                 \<lparr>convertedQualities = Map.empty, availableQualities = [], segmenter_calls = []\<rparr>
      in if availableQualities st = [] then
           (hls_failure ''No quality levels were successfully converted to HLS'',
            segmenter_calls st, None)
         else
           (case generateMasterPlaylist (getVideoInfo fs ffprobe) write_error hlsDir
                   (convertedQualities st) of
              Inl e \<Rightarrow>
                (hls_failure (''Failed to generate master playlist: '' @ e), segmenter_calls st, None)
            | Inr written \<Rightarrow>
                (let hlsMasterUrl = buildHLSUrl cfg pid yr mo ''master.m3u8'';
                     hlsUrls =
                       \<lparr>hls_master = hlsMasterUrl,
                        hls_variants =
                          (\<lambda>q. if q \<in> set (availableQualities st)
                                then Some (buildHLSUrl cfg pid yr mo (q @ ''.m3u8''))
                                else None)\<rparr>
                 in (\<lparr>hls_success = True, hls_urls = Some hlsUrls,
                      hls_qualities = availableQualities st,
                      hls_segment_duration = Some HLS_SEGMENT_DURATION,
                      hls_error = None\<rparr>,
                     segmenter_calls st, Some written))))"

text \<open>
  The master playlist as the specification describes it, line by line.  A variant
  is two lines: the \<open>#EXT-X-STREAM-INF\<close> line with its five attributes and the
  file name of the variant playlist.  A quality counts as segmented when its MP4
  path is set, the file exists and the segmenter reports success with a playlist
  and at least one segment.
\<close>

definition unlines :: "string list \<Rightarrow> string" where
  "unlines ls = concat (map (\<lambda>l. l @ newline) ls)"

definition stream_inf_line :: "HLSQuality \<Rightarrow> string \<Rightarrow> string \<Rightarrow> string" where
  "stream_inf_line hc resolution quality =
     ''#EXT-X-STREAM-INF:''
     @ ''BANDWIDTH='' @ show_int (hq_bandwidth hc)
     @ '',AVERAGE-BANDWIDTH='' @ show_int (hq_avg_bandwidth hc)
     @ '',RESOLUTION='' @ resolution
     @ '',CODECS='' @ dquote @ hq_codecs hc @ dquote
     @ '',NAME='' @ dquote @ quality @ dquote"

definition actual_resolution :: "VideoInfo \<Rightarrow> HLSQuality \<Rightarrow> string" where
  "actual_resolution vi hc =
     (if vi_valid vi \<and> vi_width vi > 0 \<and> vi_height vi > 0
      then show_int (vi_width vi) @ ''x'' @ show_int (vi_height vi)
      else hq_resolution hc)"

definition variant_lines :: "Fs \<Rightarrow> (string \<Rightarrow> Ffprobe) \<Rightarrow> VideoPaths \<Rightarrow> string \<Rightarrow> string list" where
  "variant_lines fs ffprobe paths q =
     (case (vp_compressed paths (''compressed_'' @ q), HLS_QUALITIES q) of
        (Some mp4, Some hc) \<Rightarrow>
          [stream_inf_line hc (actual_resolution (getVideoInfo fs ffprobe mp4) hc) q, q @ ''.m3u8'']
      | _ \<Rightarrow> [])"

definition segmented ::
  "Fs \<Rightarrow> (string \<Rightarrow> string \<Rightarrow> string \<Rightarrow> int \<Rightarrow> bool \<Rightarrow> SegmentResult) \<Rightarrow> VideoPaths \<Rightarrow> string \<Rightarrow> int
     \<Rightarrow> string \<Rightarrow> bool" where
  "segmented fs convertToHLS paths hlsDir dur q =
     (case vp_compressed paths (''compressed_'' @ q) of
        None \<Rightarrow> False
      | Some mp4 \<Rightarrow>
          mp4 \<noteq> [] \<and> fs mp4 \<noteq> None \<and>
          (let r = convertToHLS mp4 hlsDir q dur False
           in seg_success r
              \<and> (case seg_playlist r of None \<Rightarrow> False | Some pl \<Rightarrow> pl \<noteq> [])
              \<and> (case seg_segmentCount r of None \<Rightarrow> False | Some n \<Rightarrow> n \<noteq> 0)))"

text \<open>The conversion of a segmented quality, as \<open>hls_loop\<close> records it.\<close>

definition converted_entry ::
  "(string \<Rightarrow> string \<Rightarrow> string \<Rightarrow> int \<Rightarrow> bool \<Rightarrow> SegmentResult) \<Rightarrow> VideoPaths \<Rightarrow> string \<Rightarrow> int
     \<Rightarrow> string \<Rightarrow> ConvertedQuality option" where
  "converted_entry convertToHLS paths hlsDir dur q =
     (case vp_compressed paths (''compressed_'' @ q) of
        None \<Rightarrow> None
      | Some mp4 \<Rightarrow>
          (let r = convertToHLS mp4 hlsDir q dur False
           in case (seg_playlist r, seg_segmentCount r) of
                (Some pl, Some n) \<Rightarrow>
                  Some \<lparr>cq_playlist = pl, cq_segmentCount = n, cq_mp4Path = mp4\<rparr>
              | _ \<Rightarrow> None))"

text \<open>Example inputs for the HLS stage: the four compressed files of post 42 exist,
  the probe of the 144p file reports its real dimensions, the probes of the other
  files fail, and the segmenter fails on 240p only.\<close>

definition example_paths :: VideoPaths where
  "example_paths =
     \<lparr>vp_source = ''/uploads/2025/01/clip.mp4'',
      vp_original = ''/content/2025/01/42/original.mp4'',
      vp_output_dir = ''/content/2025/01/42'',
      vp_compressed =
        [''compressed_480p'' \<mapsto> ''/content/2025/01/42/compressed_480p.mp4'',
         ''compressed_360p'' \<mapsto> ''/content/2025/01/42/compressed_360p.mp4'',
         ''compressed_240p'' \<mapsto> ''/content/2025/01/42/compressed_240p.mp4'',
         ''compressed_144p'' \<mapsto> ''/content/2025/01/42/compressed_144p.mp4'']\<rparr>"

definition example_fs :: Fs where
  "example_fs =
     [''/content/2025/01/42/compressed_480p.mp4'' \<mapsto> 1200000,
      ''/content/2025/01/42/compressed_360p.mp4'' \<mapsto> 800000,
      ''/content/2025/01/42/compressed_240p.mp4'' \<mapsto> 500000,
      ''/content/2025/01/42/compressed_144p.mp4'' \<mapsto> 250000]"

definition example_ffprobe :: "string \<Rightarrow> Ffprobe" where
  "example_ffprobe p =
     (if p = ''/content/2025/01/42/compressed_144p.mp4'' then
        FfprobeData
          (Some \<lparr>fmt_duration = Some 10, fmt_bit_rate = Some 200000,
                 fmt_format_name = Some ''mov,mp4,m4a,3gp,3g2,mj2''\<rparr>)
          (Some [\<lparr>codec_type = ''video'', codec_name = Some ''h264'',
                  st_width = Some 82, st_height = Some 144\<rparr>])
      else FfprobeError ''probe failed'')"

definition example_segmenter :: "string \<Rightarrow> string \<Rightarrow> string \<Rightarrow> int \<Rightarrow> bool \<Rightarrow> SegmentResult" where
  "example_segmenter mp4 dir q dur reencode =
     (if q = ''240p'' then
        \<lparr>seg_success = False, seg_playlist = None, seg_segmentCount = None,
         seg_error = Some ''ffmpeg exited with code 1''\<rparr>
      else
        \<lparr>seg_success = True, seg_playlist = Some (path_join dir (q @ ''.m3u8'')),
         seg_segmentCount = Some 5, seg_error = None\<rparr>)"

section \<open>Transcoding one quality\<close>

text \<open>
  ffmpeg.ts, \<open>compressVideo\<close>.  The transcoder run is the environment: it ends with
  the \<open>end\<close> or the \<open>error\<close> event, and leaves a file of some size at the output
  path or none.  \<open>unlink_throws\<close> says whether \<open>fs.unlinkSync\<close> throws in the
  cleanup of the \<open>error\<close> handler (the handler catches and ignores it).  The elapsed
  time of the result is left out.
\<close>

datatype FfmpegEvent = FfmpegEnd "int option" | FfmpegError string "int option"

record CompressResult =
  cr_success :: bool
  cr_error :: "string option"

definition compressVideo ::
  "Fs \<Rightarrow> string \<Rightarrow> string \<Rightarrow> CompressOptions \<Rightarrow> FfmpegEvent \<Rightarrow> bool \<Rightarrow> CompressResult \<times> Fs" where
  "compressVideo fs inputPath outputPath options run unlink_throws =
     (if fs inputPath = None then
        (\<lparr>cr_success = False, cr_error = Some (''Input file not found: '' @ inputPath)\<rparr>, fs)
      else
        (case run of
           FfmpegEnd out \<Rightarrow>
             (let fs1 = fs(outputPath := out)
              in case fs1 outputPath of
                   Some sz \<Rightarrow>
                     if sz < 1024
                     then (\<lparr>cr_success = False, cr_error = Some ''Output file too small''\<rparr>, fs1)
                     else (\<lparr>cr_success = True, cr_error = None\<rparr>, fs1)
                 | None \<Rightarrow>
                     (\<lparr>cr_success = False, cr_error = Some ''Output file not created''\<rparr>, fs1))
         | FfmpegError msg out \<Rightarrow>
             (let fs1 = fs(outputPath := out);
                  fs2 = (if fs1 outputPath \<noteq> None
                         then (if unlink_throws then fs1 else fs1(outputPath := None))
                         else fs1)
              in (\<lparr>cr_success = False, cr_error = Some msg\<rparr>, fs2))))"

section \<open>Downloading the source video and the thumbnail\<close>

text \<open>
  \<open>new URL(url)\<close> is the platform's parser: it is a parameter of the model and
  answers \<open>None\<close> where the constructor throws.  The tests of \<open>privatePatterns\<close>
  are functions on the host: a pattern of dot-separated segments that cannot contain
  a dot themselves matches exactly when the host splits at its dots into segments
  that match one by one.
\<close>

record ParsedUrl =
  url_protocol :: string
  url_hostname :: string
  url_pathname :: string

fun split_on :: "char \<Rightarrow> string \<Rightarrow> string list" where
  "split_on c [] = [[]]"
| "split_on c (x # xs) =
     (if x = c then [] # split_on c xs
      else (case split_on c xs of
              [] \<Rightarrow> [[x]]
            | p # ps \<Rightarrow> (x # p) # ps))"

text \<open>\<open>\\d{1,3}\<close>, and the alternatives \<open>1[6-9]|2\\d|3[01]\<close>.\<close>

definition digits_1_3 :: "string \<Rightarrow> bool" where
  "digits_1_3 s = (1 \<le> length s \<and> length s \<le> 3 \<and> list_all is_digit s)"

definition seg_16_31 :: "string \<Rightarrow> bool" where
  "seg_16_31 s =
     (case s of
        [c1, c2] \<Rightarrow>
          (c1 = CHR ''1'' \<and> c2 \<in> set ''6789'') \<or>
          (c1 = CHR ''2'' \<and> is_digit c2) \<or>
          (c1 = CHR ''3'' \<and> c2 \<in> set ''01'')
      | _ \<Rightarrow> False)"

definition match_quad :: "(string \<Rightarrow> bool) \<Rightarrow> (string \<Rightarrow> bool) \<Rightarrow> string \<Rightarrow> bool" where
  "match_quad first second host =
     (case split_on CHR ''.'' host of
        [a, b, c, d] \<Rightarrow> first a \<and> second b \<and> digits_1_3 c \<and> digits_1_3 d
      | _ \<Rightarrow> False)"

definition privatePatterns :: "(string \<Rightarrow> bool) list" where
  "privatePatterns =
     [\<lambda>h. toLowerCase h = ''localhost'',
      match_quad (\<lambda>a. a = ''127'') digits_1_3,
      match_quad (\<lambda>a. a = ''10'') digits_1_3,
      match_quad (\<lambda>a. a = ''172'') seg_16_31,
      match_quad (\<lambda>a. a = ''192'') (\<lambda>b. b = ''168''),
      match_quad (\<lambda>a. a = ''169'') (\<lambda>b. b = ''254''),
      \<lambda>h. h = ''0.0.0.0'',
      \<lambda>h. suffix ''.internal'' (toLowerCase h),
      \<lambda>h. suffix ''.local'' (toLowerCase h)]"

record UrlValidation =
  uv_valid :: bool
  uv_error :: "string option"

definition domain_allowed :: "string \<Rightarrow> string \<Rightarrow> bool" where
  "domain_allowed host allowed0 =
     (let allowed = toLowerCase allowed0
      in if prefix ''*.'' allowed then
           (let sfx = drop 2 allowed
            in host = sfx \<or> suffix (''.'' @ sfx) host)
         else host = allowed \<or> suffix (''.'' @ allowed) host)"

text \<open>video-compressor.ts, \<open>validateDownloadUrl\<close>.\<close>

definition validateDownloadUrl :: "Config \<Rightarrow> (string \<Rightarrow> ParsedUrl option) \<Rightarrow> string \<Rightarrow> UrlValidation" where
  "validateDownloadUrl cfg parse url =
     (if url = [] then \<lparr>uv_valid = False, uv_error = Some ''URL is empty''\<rparr>
      else
        (case parse url of
           None \<Rightarrow> \<lparr>uv_valid = False, uv_error = Some ''Invalid URL format''\<rparr>
         | Some parsedUrl \<Rightarrow>
             if url_protocol parsedUrl \<notin> set [''http:'', ''https:''] then
               \<lparr>uv_valid = False, uv_error = Some ''Only HTTP/HTTPS URLs are allowed''\<rparr>
             else
               (let host = toLowerCase (url_hostname parsedUrl)
                in if list_ex (\<lambda>pattern. pattern host) privatePatterns then
                     \<lparr>uv_valid = False, uv_error = Some ''Private/internal hosts not allowed''\<rparr>
                   else
                     (let allowedDomains = allowed_download_domains cfg
                      in if ''*'' \<in> set allowedDomains then \<lparr>uv_valid = True, uv_error = None\<rparr>
                         else if \<not> list_ex (domain_allowed host) allowedDomains then
                           \<lparr>uv_valid = False,
                            uv_error = Some (''Domain '' @ [CHR 39] @ host @ [CHR 39]
                                             @ '' not in allowed list'')\<rparr>
                         else \<lparr>uv_valid = True, uv_error = None\<rparr>))))"

text \<open>image-compressor.ts, \<open>validateImageUrl\<close>: the same checks, written out again
  in the source.\<close>

definition validateImageUrl :: "Config \<Rightarrow> (string \<Rightarrow> ParsedUrl option) \<Rightarrow> string \<Rightarrow> UrlValidation" where
  "validateImageUrl cfg parse url =
     (if url = [] then \<lparr>uv_valid = False, uv_error = Some ''URL is empty''\<rparr>
      else
        (case parse url of
           None \<Rightarrow> \<lparr>uv_valid = False, uv_error = Some ''Invalid URL format''\<rparr>
         | Some parsedUrl \<Rightarrow>
             if url_protocol parsedUrl \<notin> set [''http:'', ''https:''] then
               \<lparr>uv_valid = False, uv_error = Some ''Only HTTP/HTTPS URLs are allowed''\<rparr>
             else
               (let host = toLowerCase (url_hostname parsedUrl)
                in if list_ex (\<lambda>pattern. pattern host) privatePatterns then
                     \<lparr>uv_valid = False, uv_error = Some ''Private/internal hosts not allowed''\<rparr>
                   else
                     (let allowedDomains = allowed_download_domains cfg
                      in if ''*'' \<in> set allowedDomains then \<lparr>uv_valid = True, uv_error = None\<rparr>
                         else if \<not> list_ex (domain_allowed host) allowedDomains then
                           \<lparr>uv_valid = False,
                            uv_error = Some (''Domain '' @ [CHR 39] @ host @ [CHR 39]
                                             @ '' not in allowed list'')\<rparr>
                         else \<lparr>uv_valid = True, uv_error = None\<rparr>))))"

text \<open>
  The network is the environment: what a GET of a URL is answered with (status code,
  Location header, size of the body), or the error or timeout of the request.  The
  state of a download is the list of the requests made so far.  The local path of
  the download and the file it writes are not modelled; a failure to create the
  directories is an error message of the environment.

  \<open>downloadVideo\<close> calls itself on a redirect, with no bound on the depth: the
  model counts the calls down on fuel and answers \<open>None\<close> when the fuel is used up
  (a redirect loop never returns).
\<close>

datatype HttpOutcome = HttpResponse nat "string option" int | HttpError string | HttpTimeout

record DownloadEnv =
  dl_parse :: "string \<Rightarrow> ParsedUrl option"
  dl_net :: "string \<Rightarrow> HttpOutcome"
  dl_uploads_dir_error :: "string option"
  dl_local_dir_error :: "string option"

record DownloadResult =
  dr_success :: bool
  dr_error :: "string option"
  dr_file_size :: "int option"

definition download_failed :: "string option \<Rightarrow> DownloadResult" where
  "download_failed e = \<lparr>dr_success = False, dr_error = e, dr_file_size = None\<rparr>"

fun downloadVideo ::
  "nat \<Rightarrow> Config \<Rightarrow> DownloadEnv \<Rightarrow> string \<Rightarrow> string list \<Rightarrow> DownloadResult option \<times> string list" where
  "downloadVideo 0 cfg env videoUrl requests = (None, requests)"
| "downloadVideo (Suc fuel) cfg env videoUrl requests =
     (let validationResult = validateDownloadUrl cfg (dl_parse env) videoUrl
      in if \<not> uv_valid validationResult then
           (Some (download_failed (uv_error validationResult)), requests)
         else if dl_uploads_dir_error env \<noteq> None then
           (Some (download_failed (dl_uploads_dir_error env)), requests)
         else if dl_local_dir_error env \<noteq> None then
           (Some (download_failed (dl_local_dir_error env)), requests)
         else
           (let requests1 = requests @ [videoUrl]
            in case dl_net env videoUrl of
                 HttpError msg \<Rightarrow> (Some (download_failed (Some msg)), requests1)
               | HttpTimeout \<Rightarrow> (Some (download_failed (Some ''Download timeout'')), requests1)
               | HttpResponse statusCode location sz \<Rightarrow>
                   if (statusCode = 301 \<or> statusCode = 302) \<and> location \<noteq> None \<and> location \<noteq> Some []
                   then downloadVideo fuel cfg env (case location of Some l \<Rightarrow> l | None \<Rightarrow> [])
                          requests1
                   else if statusCode \<noteq> 200 then
                     (Some (download_failed (Some (''HTTP '' @ show_nat statusCode))), requests1)
                   else if sz < 1024 then
                     (Some (download_failed (Some ''Downloaded file too small'')), requests1)
                   else
                     (Some \<lparr>dr_success = True, dr_error = None, dr_file_size = Some sz\<rparr>,
                      requests1)))"

definition MAX_IMAGE_SIZE_MB :: rat where
  "MAX_IMAGE_SIZE_MB = 50"

fun downloadImage ::
  "nat \<Rightarrow> Config \<Rightarrow> DownloadEnv \<Rightarrow> string \<Rightarrow> string list \<Rightarrow> DownloadResult option \<times> string list" where
  "downloadImage 0 cfg env imageUrl requests = (None, requests)"
| "downloadImage (Suc fuel) cfg env imageUrl requests =
     (let validationResult = validateImageUrl cfg (dl_parse env) imageUrl
      in if \<not> uv_valid validationResult then
           (Some (download_failed (uv_error validationResult)), requests)
         else
           (let requests1 = requests @ [imageUrl]
            in case dl_net env imageUrl of
                 HttpError msg \<Rightarrow> (Some (download_failed (Some msg)), requests1)
               | HttpTimeout \<Rightarrow> (Some (download_failed (Some ''Download timeout'')), requests1)
               | HttpResponse statusCode location sz \<Rightarrow>
                   if (statusCode = 301 \<or> statusCode = 302) \<and> location \<noteq> None \<and> location \<noteq> Some []
                   then downloadImage fuel cfg env (case location of Some l \<Rightarrow> l | None \<Rightarrow> [])
                          requests1
                   else if statusCode \<noteq> 200 then
                     (Some (download_failed (Some (''HTTP '' @ show_nat statusCode))), requests1)
                   else if sz < 100 then
                     (Some (download_failed (Some ''Downloaded file too small'')), requests1)
                   else if (of_int sz :: rat) / (1024 * 1024) > MAX_IMAGE_SIZE_MB then
                     (Some (download_failed
                              (Some (''File size '' @ toFixed2 (of_int sz / (1024 * 1024))
                                     @ '' MB exceeds maximum '' @ show_hundredths MAX_IMAGE_SIZE_MB
                                     @ '' MB''))), requests1)
                   else
                     (Some \<lparr>dr_success = True, dr_error = None, dr_file_size = Some sz\<rparr>,
                      requests1)))"

text \<open>
  The hosts the specification excludes, in its words: an IPv4 address in dotted
  decimal notation that is loopback (127.0.0.0/8), private (10/8, 172.16/12,
  192.168/16), link-local (169.254/16) or 0.0.0.0; \<open>localhost\<close>; a name that ends
  in \<open>.internal\<close> or \<open>.local\<close>.
\<close>

definition ipv4_text :: "nat \<Rightarrow> nat \<Rightarrow> nat \<Rightarrow> nat \<Rightarrow> string" where
  "ipv4_text a b c d = show_nat a @ ''.'' @ show_nat b @ ''.'' @ show_nat c @ ''.'' @ show_nat d"

definition private_ipv4 :: "nat \<Rightarrow> nat \<Rightarrow> nat \<Rightarrow> nat \<Rightarrow> bool" where
  "private_ipv4 a b c d =
     (a \<le> 255 \<and> b \<le> 255 \<and> c \<le> 255 \<and> d \<le> 255 \<and>
      (a = 127 \<or> a = 10 \<or> (a = 172 \<and> 16 \<le> b \<and> b \<le> 31) \<or> (a = 192 \<and> b = 168)
       \<or> (a = 169 \<and> b = 254) \<or> (a = 0 \<and> b = 0 \<and> c = 0 \<and> d = 0)))"

definition private_host :: "string \<Rightarrow> bool" where
  "private_host h =
     ((\<exists>a b c d. private_ipv4 a b c d \<and> h = ipv4_text a b c d)
      \<or> h = ''localhost'' \<or> suffix ''.internal'' h \<or> suffix ''.local'' h)"

text \<open>A chain of redirects from the first URL of \<open>us\<close> to \<open>target\<close>: every URL of
  the chain passes the validation and is answered 301 or 302 with the next URL in
  the Location header.\<close>

fun redirect_chain ::
  "(Config \<Rightarrow> (string \<Rightarrow> ParsedUrl option) \<Rightarrow> string \<Rightarrow> UrlValidation) \<Rightarrow> Config \<Rightarrow> DownloadEnv
     \<Rightarrow> string list \<Rightarrow> string \<Rightarrow> bool" where
  "redirect_chain validate cfg env [] target = True"
| "redirect_chain validate cfg env (u # us) target =
     (uv_valid (validate cfg (dl_parse env) u)
      \<and> (case dl_net env u of
            HttpResponse statusCode location sz \<Rightarrow>
              (statusCode = 301 \<or> statusCode = 302)
              \<and> location = Some (hd (us @ [target])) \<and> hd (us @ [target]) \<noteq> []
          | _ \<Rightarrow> False)
      \<and> redirect_chain validate cfg env us target)"

text \<open>Example network: two redirects in a row in front of the file.\<close>

definition example_parse :: "string \<Rightarrow> ParsedUrl option" where
  "example_parse =
     [''https://allowed.example.com/clip.mp4'' \<mapsto>
        \<lparr>url_protocol = ''https:'', url_hostname = ''allowed.example.com'',
         url_pathname = ''/clip.mp4''\<rparr>,
      ''https://cdn1.example.com/clip.mp4'' \<mapsto>
        \<lparr>url_protocol = ''https:'', url_hostname = ''cdn1.example.com'',
         url_pathname = ''/clip.mp4''\<rparr>,
      ''https://cdn2.example.com/clip.mp4'' \<mapsto>
        \<lparr>url_protocol = ''https:'', url_hostname = ''cdn2.example.com'',
         url_pathname = ''/clip.mp4''\<rparr>,
      ''http://169.254.169.254/latest/meta-data/'' \<mapsto>
        \<lparr>url_protocol = ''http:'', url_hostname = ''169.254.169.254'',
         url_pathname = ''/latest/meta-data/''\<rparr>]"

definition example_net :: "string \<Rightarrow> HttpOutcome" where
  "example_net url =
     (if url = ''https://allowed.example.com/clip.mp4''
      then HttpResponse 302 (Some ''https://cdn1.example.com/clip.mp4'') 0
      else if url = ''https://cdn1.example.com/clip.mp4''
      then HttpResponse 301 (Some ''https://cdn2.example.com/clip.mp4'') 0
      else if url = ''https://cdn2.example.com/clip.mp4''
      then HttpResponse 200 None 5242880
      else HttpError ''getaddrinfo ENOTFOUND'')"

definition example_download_env :: DownloadEnv where
  "example_download_env =
     \<lparr>dl_parse = example_parse, dl_net = example_net,
      dl_uploads_dir_error = None, dl_local_dir_error = None\<rparr>"

section \<open>Verified properties\<close>

subsection \<open>Decimal rendering and parsing\<close>

declare show_nat.simps [simp del]

lemma digit_cases: "d < 10 \<Longrightarrow> d \<in> {0, 1, 2, 3, 4, 5, 6, 7, 8, 9::nat}"
  by auto

lemma is_digit_digit_char: "d < 10 \<Longrightarrow> is_digit (digit_char d)"
  using digit_cases [of d] by (auto simp: is_digit_def digit_char_def)

lemma digit_val_digit_char: "d < 10 \<Longrightarrow> digit_val (digit_char d) = d"
  using digit_cases [of d] by (auto simp: digit_val_def digit_char_def)

lemma show_nat_digits: "c \<in> set (show_nat n) \<Longrightarrow> is_digit c"
proof (induction n arbitrary: c rule: show_nat.induct)
  case (1 n)
  show ?case
  proof (cases "n < 10")
    case True
    with "1.prems" show ?thesis
      by (subst (asm) show_nat.simps) (simp add: is_digit_digit_char)
  next
    case False
    with "1.prems" have "c \<in> set (show_nat (n div 10)) \<or> c = digit_char (n mod 10)"
      by (subst (asm) show_nat.simps) auto
    with "1.IH" [OF False] show ?thesis
      by (auto simp: is_digit_digit_char)
  qed
qed

lemma show_nat_nonempty: "show_nat n \<noteq> []"
  by (subst show_nat.simps) simp

lemma parse_show_nat: "foldl (\<lambda>acc c. acc * 10 + digit_val c) 0 (show_nat n) = n"
proof (induction n rule: show_nat.induct)
  case (1 n)
  show ?case
  proof (cases "n < 10")
    case True
    then show ?thesis
      by (subst show_nat.simps) (simp add: digit_val_digit_char)
  next
    case False
    with "1.IH" show ?thesis
      by (subst show_nat.simps) (simp add: digit_val_digit_char)
  qed
qed

lemma parseInt_show_int: "0 \<le> a \<Longrightarrow> parseInt (show_int a) = a"
  by (simp add: parseInt_def show_int_def parse_show_nat)

lemma show_int_digits: "0 \<le> a \<Longrightarrow> c \<in> set (show_int a) \<Longrightarrow> is_digit c"
  by (simp add: show_int_def show_nat_digits)

lemma show_int_nonempty: "show_int a \<noteq> []"
  by (simp add: show_int_def show_nat_nonempty)

lemma not_digit_hyphen: "\<not> is_digit CHR ''-''"
  by (simp add: is_digit_def)

lemma takeWhile_digits_stop:
  "(\<And>c. c \<in> set ds \<Longrightarrow> is_digit c) \<Longrightarrow> \<not> is_digit x \<Longrightarrow> takeWhile is_digit (ds @ x # r) = ds"
  by (simp add: takeWhile_append2)

lemma dropWhile_digits_stop:
  "(\<And>c. c \<in> set ds \<Longrightarrow> is_digit c) \<Longrightarrow> \<not> is_digit x \<Longrightarrow> dropWhile is_digit (ds @ x # r) = x # r"
  by (simp add: dropWhile_append2)

lemma takeWhile_digits_all:
  "(\<And>c. c \<in> set ds \<Longrightarrow> is_digit c) \<Longrightarrow> takeWhile is_digit ds = ds"
  by (simp add: takeWhile_eq_all_conv)

lemma regex_range_at_exact:
  assumes "\<And>c. c \<in> set d1 \<Longrightarrow> is_digit c" "\<And>c. c \<in> set d2 \<Longrightarrow> is_digit c"
  shows "regex_range_at (''bytes='' @ d1 @ ''-'' @ d2) = Some (d1, d2)"
  using assms
  by (simp add: regex_range_at_def dropWhile_digits_stop takeWhile_digits_stop
      takeWhile_digits_all not_digit_hyphen)

lemma regex_range_exact:
  assumes "\<And>c. c \<in> set d1 \<Longrightarrow> is_digit c" "\<And>c. c \<in> set d2 \<Longrightarrow> is_digit c"
  shows "regex_range (''bytes='' @ d1 @ ''-'' @ d2) = Some (d1, d2)"
  using regex_range_at_exact [OF assms] by simp

lemma regex_range_suffix:
  assumes "\<And>c. c \<in> set d2 \<Longrightarrow> is_digit c"
  shows "regex_range (''bytes=-'' @ d2) = Some ([], d2)"
  using regex_range_at_exact [of "[]" d2] assms by simp

lemma regex_range_open:
  assumes "\<And>c. c \<in> set d1 \<Longrightarrow> is_digit c"
  shows "regex_range (''bytes='' @ d1 @ ''-'') = Some (d1, [])"
  using regex_range_at_exact [of d1 "[]"] assms by simp

lemma parseRangeHeader_explicit:
  assumes "0 \<le> a" "a \<le> b" "b < sz"
  shows "parseRangeHeader (''bytes='' @ show_int a @ ''-'' @ show_int b) sz = Some (a, b)"
proof -
  have b0: "0 \<le> b" using assms by simp
  have "regex_range (''bytes='' @ show_int a @ ''-'' @ show_int b) = Some (show_int a, show_int b)"
    by (rule regex_range_exact) (auto intro: show_int_digits assms b0)
  then show ?thesis
    using assms b0
    by (simp add: parseRangeHeader_def show_int_nonempty parseInt_show_int)
qed

lemma parseRangeHeader_suffix_clamped:
  assumes "0 < sz" "sz < n"
  shows "parseRangeHeader (''bytes=-'' @ show_int n) sz = Some (0, sz - 1)"
proof -
  have n0: "0 \<le> n" using assms by simp
  have "regex_range (''bytes=-'' @ show_int n) = Some ([], show_int n)"
    by (rule regex_range_suffix) (auto intro: show_int_digits n0)
  then show ?thesis
    using assms n0
    by (simp add: parseRangeHeader_def show_int_nonempty parseInt_show_int)
qed

lemma parseRangeHeader_start_beyond:
  assumes "0 \<le> sz" "sz \<le> a" "0 \<le> b"
  shows "parseRangeHeader (''bytes='' @ show_int a @ ''-'' @ show_int b) sz = None"
    and "parseRangeHeader (''bytes='' @ show_int a @ ''-'') sz = None"
proof -
  have a0: "0 \<le> a" using assms by simp
  have "regex_range (''bytes='' @ show_int a @ ''-'' @ show_int b) = Some (show_int a, show_int b)"
    by (rule regex_range_exact) (auto intro: show_int_digits assms a0)
  then show "parseRangeHeader (''bytes='' @ show_int a @ ''-'' @ show_int b) sz = None"
    using assms a0
    by (simp add: parseRangeHeader_def show_int_nonempty parseInt_show_int)
  have "regex_range (''bytes='' @ show_int a @ ''-'') = Some (show_int a, [])"
    by (rule regex_range_open) (auto intro: show_int_digits a0)
  then show "parseRangeHeader (''bytes='' @ show_int a @ ''-'') sz = None"
    using assms a0
    by (simp add: parseRangeHeader_def show_int_nonempty parseInt_show_int)
qed

lemma GET_streamable_range:
  assumes "streamable_file f" "h \<noteq> []"
  shows "GET f (Some h) =
     (case parseRangeHeader h (file_size f) of
        None \<Rightarrow>
          \<lparr>status = 416, content_length = None,
           content_range = Some (''bytes */'' @ show_int (file_size f)),
           cache_control = None, body = PlainText ''Range Not Satisfiable''\<rparr>
      | Some (start, end) \<Rightarrow>
          \<lparr>status = 206, content_length = Some (show_int (end - start + 1)),
           content_range =
             Some (''bytes '' @ show_int start @ ''-'' @ show_int end
                   @ ''/'' @ show_int (file_size f)),
           cache_control = Some (getCacheHeaders (file_ext f)),
           body = FileRange start end\<rparr>)"
  using assms by (simp add: GET_def streamable_file_def Let_def split: option.splits)

text \<open>
  C7 (amended).  For a GET of an existing streamable file (.mp4, .webm, .ts):
  a header \<open>bytes=a-b\<close> with \<open>0 \<le> a \<le> b < size\<close> is answered 206 with
  \<open>Content-Length = b - a + 1\<close> and \<open>Content-Range: bytes a-b/size\<close>; a suffix
  range \<open>bytes=-n\<close> with \<open>n > size\<close> on a non-empty file is answered 206 with
  the whole file; a range whose start is at or beyond the size (\<open>bytes=a-b\<close> or
  \<open>bytes=a-\<close>) is answered 416 with \<open>Content-Range: bytes */size\<close>.
\<close>

theorem range_request_responses:
  assumes "streamable_file f"
  shows "(0 \<le> a \<and> a \<le> b \<and> b < file_size f \<longrightarrow>
           (let r = GET f (Some (''bytes='' @ show_int a @ ''-'' @ show_int b))
            in status r = 206
               \<and> content_length r = Some (show_int (b - a + 1))
               \<and> content_range r =
                   Some (''bytes '' @ show_int a @ ''-'' @ show_int b @ ''/'' @ show_int (file_size f))
               \<and> body r = FileRange a b))
       \<and> (0 < file_size f \<and> file_size f < n \<longrightarrow>
           (let r = GET f (Some (''bytes=-'' @ show_int n))
            in status r = 206
               \<and> content_length r = Some (show_int (file_size f))
               \<and> content_range r =
                   Some (''bytes '' @ show_int 0 @ ''-'' @ show_int (file_size f - 1)
                         @ ''/'' @ show_int (file_size f))
               \<and> body r = FileRange 0 (file_size f - 1)))
       \<and> (file_size f \<le> a \<and> 0 \<le> b \<longrightarrow>
           (let r = GET f (Some (''bytes='' @ show_int a @ ''-'' @ show_int b));
                r' = GET f (Some (''bytes='' @ show_int a @ ''-''))
            in status r = 416
               \<and> content_range r = Some (''bytes */'' @ show_int (file_size f))
               \<and> status r' = 416
               \<and> content_range r' = Some (''bytes */'' @ show_int (file_size f))))"
proof (intro conjI impI)
  assume h: "0 \<le> a \<and> a \<le> b \<and> b < file_size f"
  have p: "parseRangeHeader (''bytes='' @ show_int a @ ''-'' @ show_int b) (file_size f) = Some (a, b)"
    using h by (intro parseRangeHeader_explicit) auto
  show "let r = GET f (Some (''bytes='' @ show_int a @ ''-'' @ show_int b))
        in status r = 206
           \<and> content_length r = Some (show_int (b - a + 1))
           \<and> content_range r =
               Some (''bytes '' @ show_int a @ ''-'' @ show_int b @ ''/'' @ show_int (file_size f))
           \<and> body r = FileRange a b"
    using GET_streamable_range [OF assms, of "''bytes='' @ show_int a @ ''-'' @ show_int b"] p
    by (simp add: Let_def)
next
  assume h: "0 < file_size f \<and> file_size f < n"
  have p: "parseRangeHeader (''bytes=-'' @ show_int n) (file_size f) = Some (0, file_size f - 1)"
    using h by (intro parseRangeHeader_suffix_clamped) auto
  show "let r = GET f (Some (''bytes=-'' @ show_int n))
        in status r = 206
           \<and> content_length r = Some (show_int (file_size f))
           \<and> content_range r =
               Some (''bytes '' @ show_int 0 @ ''-'' @ show_int (file_size f - 1)
                     @ ''/'' @ show_int (file_size f))
           \<and> body r = FileRange 0 (file_size f - 1)"
    using GET_streamable_range [OF assms, of "''bytes=-'' @ show_int n"] p
    by (simp add: Let_def)
next
  assume h: "file_size f \<le> a \<and> 0 \<le> b"
  have s0: "0 \<le> file_size f" using assms by (simp add: streamable_file_def)
  have p: "parseRangeHeader (''bytes='' @ show_int a @ ''-'' @ show_int b) (file_size f) = None"
    using h s0 by (intro parseRangeHeader_start_beyond) auto
  have p': "parseRangeHeader (''bytes='' @ show_int a @ ''-'') (file_size f) = None"
    using h s0 by (intro parseRangeHeader_start_beyond(2) [where b = b]) auto
  show "let r = GET f (Some (''bytes='' @ show_int a @ ''-'' @ show_int b));
            r' = GET f (Some (''bytes='' @ show_int a @ ''-''))
        in status r = 416
           \<and> content_range r = Some (''bytes */'' @ show_int (file_size f))
           \<and> status r' = 416
           \<and> content_range r' = Some (''bytes */'' @ show_int (file_size f))"
    using GET_streamable_range [OF assms, of "''bytes='' @ show_int a @ ''-'' @ show_int b"]
      GET_streamable_range [OF assms, of "''bytes='' @ show_int a @ ''-''"] p p'
    by (simp add: Let_def)
qed


theorem range_request_responses_witness:
  "status (GET \<lparr>has_segments = True, sanitize_ok = True, inside_content_dir = True,
             file_exists = True, is_file = True, file_ext = ''.mp4'', file_size = 200\<rparr>
             (Some ''bytes=10-99'')) = 206
   \<and> content_length (GET \<lparr>has_segments = True, sanitize_ok = True, inside_content_dir = True,
             file_exists = True, is_file = True, file_ext = ''.mp4'', file_size = 200\<rparr>
             (Some ''bytes=10-99'')) = Some ''90''
   \<and> body (GET \<lparr>has_segments = True, sanitize_ok = True, inside_content_dir = True,
             file_exists = True, is_file = True, file_ext = ''.mp4'', file_size = 200\<rparr>
             (Some ''bytes=-500'')) = FileRange 0 199
   \<and> status (GET \<lparr>has_segments = True, sanitize_ok = True, inside_content_dir = True,
             file_exists = True, is_file = True, file_ext = ''.mp4'', file_size = 200\<rparr>
             (Some ''bytes=200-300'')) = 416"
proof -
  let ?f = "\<lparr>has_segments = True, sanitize_ok = True, inside_content_dir = True,
             file_exists = True, is_file = True, file_ext = ''.mp4'', file_size = 200\<rparr>"
  have sf: "streamable_file ?f"
    by (simp add: streamable_file_def STREAMABLE_EXTENSIONS_def)
  have s10: "show_int 10 = ''10''" and s99: "show_int 99 = ''99''"
    and s500: "show_int 500 = ''500''" and s200: "show_int 200 = ''200''"
    and s300: "show_int 300 = ''300''" and s90: "show_int 90 = ''90''"
    by (simp_all add: show_int_def show_nat.simps digit_char_def)
  from range_request_responses [OF sf, of 10 99 500]
  have "status (GET ?f (Some (''bytes='' @ show_int 10 @ ''-'' @ show_int 99))) = 206"
    and "content_length (GET ?f (Some (''bytes='' @ show_int 10 @ ''-'' @ show_int 99)))
           = Some (show_int (99 - 10 + 1))"
    and "body (GET ?f (Some (''bytes=-'' @ show_int 500))) = FileRange 0 199"
    by (simp_all add: Let_def)
  moreover from range_request_responses [OF sf, of 200 300 500]
  have "status (GET ?f (Some (''bytes='' @ show_int 200 @ ''-'' @ show_int 300))) = 416"
    by (simp add: Let_def)
  ultimately show ?thesis
    by (simp add: s10 s99 s500 s200 s300 s90)
qed

text \<open>
  The claim as stated fails on an empty file: a suffix range longer than the file
  is then unsatisfiable and the answer is 416, not 206.
\<close>

theorem suffix_range_empty_file_counterexample:
  "(0::int) < 500
   \<and> status (GET \<lparr>has_segments = True, sanitize_ok = True, inside_content_dir = True,
             file_exists = True, is_file = True, file_ext = ''.ts'', file_size = 0\<rparr>
             (Some ''bytes=-500'')) = 416"
  by (simp add: GET_def STREAMABLE_EXTENSIONS_def parseRangeHeader_def regex_range_at_def
      is_digit_def parseInt_def digit_val_def)

subsection \<open>Webhook dispatch and the worker\<close>

lemma sendWebhook_attempts_posted:
  "0 < n \<Longrightarrow>
   \<exists>k. 0 < k \<and> k \<le> n \<and>
       snd (sendWebhook_attempts env n p s) = s\<lparr>posted := posted s @ replicate k p\<rparr>"
proof (induction n arbitrary: s)
  case 0
  then show ?case by simp
next
  case (Suc n)
  show ?case
  proof (cases "post_ok env (length (posted s)) \<or> n = 0")
    case True
    then have "snd (sendWebhook_attempts env (Suc n) p s) = s\<lparr>posted := posted s @ replicate 1 p\<rparr>"
      by (cases n) (auto simp: Let_def)
    then show ?thesis by (intro exI [of _ 1]) simp
  next
    case False
    then have n0: "0 < n" and nok: "\<not> post_ok env (length (posted s))" by auto
    from Suc.IH [OF n0, of "s\<lparr>posted := posted s @ [p]\<rparr>"]
    obtain k where k: "0 < k" "k \<le> n"
      "snd (sendWebhook_attempts env n p (s\<lparr>posted := posted s @ [p]\<rparr>))
         = s\<lparr>posted := posted s @ [p] @ replicate k p\<rparr>"
      by auto
    have "snd (sendWebhook_attempts env (Suc n) p s) = s\<lparr>posted := posted s @ replicate (Suc k) p\<rparr>"
      using nok k(3) by (simp add: Let_def)
    with k show ?thesis by (intro exI [of _ "Suc k"]) simp
  qed
qed

lemma sendWebhook_posted:
  assumes "wordpress_webhook_url (env_cfg env) \<noteq> []"
  shows "\<exists>k. 0 < k \<and> k \<le> 3 \<and> snd (sendWebhook env p s) = s\<lparr>posted := posted s @ replicate k p\<rparr>"
  using assms sendWebhook_attempts_posted [of 3 env p s]
  by (simp add: sendWebhook_def WEBHOOK_MAX_RETRIES_def)

lemma sendFailureWebhook_effect:
  assumes "wordpress_webhook_url (env_cfg env) \<noteq> []"
  shows "\<exists>k p. 0 < k \<and> k \<le> 3 \<and> is_failure_payload jid p \<and> wp_error p = Some err \<and>
           snd (sendFailureWebhook env jid pid err s)
             = s\<lparr>throttler := cleanup (throttler s) jid, posted := posted s @ replicate k p\<rparr>"
proof -
  let ?p = "(empty_payload jid pid failed)
              \<lparr>wp_progress := Some 0, wp_stage := Some ''error'', wp_error := Some err\<rparr>"
  let ?s1 = "s\<lparr>throttler := cleanup (throttler s) jid\<rparr>"
  from sendWebhook_posted [OF assms, of ?p ?s1]
  obtain k where k: "0 < k" "k \<le> 3"
    "snd (sendWebhook env ?p ?s1) = ?s1\<lparr>posted := posted ?s1 @ replicate k ?p\<rparr>" by blast
  have "is_failure_payload jid ?p" "wp_error ?p = Some err"
    by (simp_all add: is_failure_payload_def empty_payload_def)
  moreover have "snd (sendFailureWebhook env jid pid err s)
             = s\<lparr>throttler := cleanup (throttler s) jid, posted := posted s @ replicate k ?p\<rparr>"
    using k(3) by (simp add: sendFailureWebhook_def Let_def)
  ultimately show ?thesis using k(1,2) by blast
qed

lemma failure_webhook_last:
  assumes "wordpress_webhook_url (env_cfg env) \<noteq> []"
  shows "posted (snd (sendFailureWebhook env jid pid err s)) \<noteq> []
         \<and> is_failure_payload jid (last (posted (snd (sendFailureWebhook env jid pid err s))))
         \<and> lastProgress (throttler (snd (sendFailureWebhook env jid pid err s))) jid = None
         \<and> lastSentTime (throttler (snd (sendFailureWebhook env jid pid err s))) jid = None"
proof -
  from sendFailureWebhook_effect [OF assms, of jid err pid s]
  obtain k p where "0 < k" "is_failure_payload jid p"
    "snd (sendFailureWebhook env jid pid err s)
       = s\<lparr>throttler := cleanup (throttler s) jid, posted := posted s @ replicate k p\<rparr>"
    by blast
  then show ?thesis by (simp add: cleanup_def)
qed

text \<open>
  The worker.  Whatever the schedule lets the callbacks in flight do, the POSTs
  made so far stay and new ones are added behind them.
\<close>

lemma sendWebhookOnce_posted: "posted (snd (sendWebhookOnce env p s)) = posted s @ [p]"
  by (simp add: sendWebhookOnce_def)

















text \<open>
  Run alone, with no callback resumed at any await, the calls the attempt awaits
  leave the dispatcher as the calls defined for it do.
\<close>

lemma await_attempts_alone:
  "fst (await_attempts env (\<lambda>_. []) jid pid n p ws) = fst (sendWebhook_attempts env n p (dispatch ws))
   \<and> dispatch (snd (await_attempts env (\<lambda>_. []) jid pid n p ws))
       = snd (sendWebhook_attempts env n p (dispatch ws))"
proof (induction n arbitrary: ws)
  case 0
  then show ?case by simp
next
  case (Suc left)
  show ?case
  proof (cases "left = 0")
    case True
    then show ?thesis by (simp add: sendWebhookOnce_def await_def Let_def)
  next
    case False
    then show ?thesis by (simp add: Suc.IH sendWebhookOnce_def await_def Let_def)
  qed
qed

lemma awaited_calls_alone:
  "dispatch (snd (await_sendProgressUpdate env (\<lambda>_. []) jid pid st n stage ws))
     = snd (sendProgressUpdate env jid pid st n stage (dispatch ws))"
  "dispatch (snd (await_sendFailureWebhook env (\<lambda>_. []) jid pid err ws))
     = snd (sendFailureWebhook env jid pid err (dispatch ws))"
  "dispatch (snd (await_sendCompletionWebhook env (\<lambda>_. []) jid pid r ws))
     = snd (sendCompletionWebhook env jid pid r (dispatch ws))"
  by (simp_all add: await_sendProgressUpdate_def sendProgressUpdate_def
      await_sendFailureWebhook_def sendFailureWebhook_def
      await_sendCompletionWebhook_def sendCompletionWebhook_def
      await_sendWebhook_def sendWebhook_def await_attempts_alone await_def throttle_def
      progress_payload_def failure_payload_def completion_payload_def Let_def
      split: prod.splits)








text \<open>
  C5 (defect in the code).  \<open>shouldSend\<close> compares the elapsed time with
  \<open>> 3000\<close>: a progress event that arrives exactly 3000 ms after the last send,
  with a percent less than 5 above the last one, is dropped and nothing is posted.
\<close>

theorem progress_exactly_three_seconds_later_is_dropped:
  "(4000::int) - 1000 \<ge> 3000
   \<and> fst (shouldSend \<lparr>lastProgress = [''job_42_1700000000000'' \<mapsto> 10],
                       lastSentTime = [''job_42_1700000000000'' \<mapsto> 1000]\<rparr>
             ''job_42_1700000000000'' 12 4000) = False
   \<and> posted (snd (sendProgressUpdate (example_env\<lparr>now_at := (\<lambda>k. 4000)\<rparr>)
                     ''job_42_1700000000000'' 42 processing 12 ''compressing_480p''
                     (initial_state\<lparr>throttler :=
                        \<lparr>lastProgress = [''job_42_1700000000000'' \<mapsto> 10],
                         lastSentTime = [''job_42_1700000000000'' \<mapsto> 1000]\<rparr>\<rparr>))) = []"
  by (simp add: shouldSend_def sendProgressUpdate_def num_or_def initial_state_def example_env_def)

text \<open>What the throttler does decide on, and what the terminal webhooks do.\<close>

lemma shouldSend_decision:
  "fst (shouldSend t jid p now) \<longleftrightarrow>
     p - (case lastProgress t jid of None \<Rightarrow> 0 | Some v \<Rightarrow> v) \<ge> 5
     \<or> now - (case lastSentTime t jid of None \<Rightarrow> 0 | Some v \<Rightarrow> v) > 3000
     \<or> p = 100
     \<or> (p = 0 \<and> (case lastProgress t jid of None \<Rightarrow> 0 | Some v \<Rightarrow> v) = 0)"
  by (auto simp: shouldSend_def num_or_def Let_def split: option.splits)

lemma completion_webhook_always_sends:
  assumes "wordpress_webhook_url (env_cfg env) \<noteq> []"
  shows "length (posted (snd (sendCompletionWebhook env jid pid r s))) > length (posted s)
         \<and> lastProgress (throttler (snd (sendCompletionWebhook env jid pid r s))) jid = None
         \<and> lastSentTime (throttler (snd (sendCompletionWebhook env jid pid r s))) jid = None"
proof -
  obtain p where
    "sendCompletionWebhook env jid pid r s
       = sendWebhook env p (s\<lparr>throttler := cleanup (throttler s) jid\<rparr>)"
    by (simp add: sendCompletionWebhook_def Let_def)
  moreover from sendWebhook_posted [OF assms, of p "s\<lparr>throttler := cleanup (throttler s) jid\<rparr>"]
  obtain k where "0 < k"
    "snd (sendWebhook env p (s\<lparr>throttler := cleanup (throttler s) jid\<rparr>))
       = s\<lparr>throttler := cleanup (throttler s) jid, posted := posted s @ replicate k p\<rparr>"
    by auto
  ultimately show ?thesis by (simp add: cleanup_def)
qed

subsection \<open>Input validation\<close>

lemma stream_step_duration: "vi_duration (fst (stream_step acc s)) = vi_duration (fst acc)"
  by (cases acc) (simp add: stream_step_def Let_def)

lemma foldl_stream_step_duration:
  "vi_duration (fst (foldl stream_step acc ss)) = vi_duration (fst acc)"
  by (induction ss arbitrary: acc) (simp_all add: stream_step_duration)

lemma getVideoInfo_duration:
  assumes "fs p = Some sz" and "ffprobe p = FfprobeData (Some fmt) (Some streams)"
    and "fmt_duration fmt = Some d"
  shows "vi_duration (getVideoInfo fs ffprobe p) = round2 d"
proof -
  define info1 where "info1 =
    (let i = initial_info
               \<lparr>vi_file_size := sz,
                vi_file_size_mb := round2 (of_int sz / (1024 * 1024)),
                vi_container := Some (toLowerCase (drop 1 (extname p)))\<rparr>
               \<lparr>vi_duration := round2 d, vi_bitrate := opt_or0 (fmt_bit_rate fmt)\<rparr>
     in case fmt_format_name fmt of
          None \<Rightarrow> i
        | Some n \<Rightarrow>
            if n = [] then i
            else i\<lparr>vi_container := Some (toLowerCase (takeWhile (\<lambda>c. c \<noteq> CHR '','') n))\<rparr>)"
  have d1: "vi_duration info1 = round2 d"
    by (simp add: info1_def Let_def split: option.splits)
  obtain info2 hv where f: "foldl stream_step (info1, False) streams = (info2, hv)"
    by (cases "foldl stream_step (info1, False) streams") auto
  have d2: "vi_duration info2 = round2 d"
    using foldl_stream_step_duration [of "(info1, False)" streams] f d1 by simp
  have "getVideoInfo fs ffprobe p =
      (if \<not> hv then
         info2\<lparr>vi_corrupted := True, vi_error := Some ''No video stream found in file''\<rparr>
       else if vi_duration info2 \<le> 0 \<or> vi_width info2 \<le> 0 \<or> vi_height info2 \<le> 0 then
         info2\<lparr>vi_corrupted := True,
               vi_error := Some ''Invalid video metadata (zero duration or dimensions)''\<rparr>
       else info2\<lparr>vi_valid := True\<rparr>)"
    using assms f unfolding getVideoInfo_def info1_def by (simp add: Let_def)
  then show ?thesis using d2 by simp
qed

lemma stream_step_flags:
  "vi_valid (fst (stream_step acc s)) = vi_valid (fst acc)
   \<and> vi_corrupted (fst (stream_step acc s)) = vi_corrupted (fst acc)"
  by (cases acc) (simp add: stream_step_def Let_def)

lemma foldl_stream_step_flags:
  "vi_valid (fst (foldl stream_step acc ss)) = vi_valid (fst acc)
   \<and> vi_corrupted (fst (foldl stream_step acc ss)) = vi_corrupted (fst acc)"
  by (induction ss arbitrary: acc) (simp_all add: stream_step_flags)

lemma getVideoInfo_valid_not_corrupted:
  "vi_valid (getVideoInfo fs ffprobe p) \<Longrightarrow> \<not> vi_corrupted (getVideoInfo fs ffprobe p)"
proof (cases "fs p")
  case None
  then show "vi_valid (getVideoInfo fs ffprobe p) \<Longrightarrow> ?thesis"
    by (simp add: getVideoInfo_def initial_info_def)
next
  case (Some sz)
  assume v: "vi_valid (getVideoInfo fs ffprobe p)"
  show ?thesis
  proof (cases "ffprobe p")
    case (FfprobeError m)
    with Some v show ?thesis by (simp add: getVideoInfo_def initial_info_def Let_def)
  next
    case (FfprobeData format streams)
    show ?thesis
    proof (cases streams)
      case None
      with Some FfprobeData v show ?thesis
        by (simp add: getVideoInfo_def initial_info_def Let_def)
    next
      case (Some ss)
      define info1 where "info1 =
        (let info0 = initial_info
               \<lparr>vi_file_size := sz,
                vi_file_size_mb := round2 (of_int sz / (1024 * 1024)),
                vi_container := Some (toLowerCase (drop 1 (extname p)))\<rparr>
         in case format of
              None \<Rightarrow> info0
            | Some f \<Rightarrow>
                (let i = info0
                       \<lparr>vi_duration := round2 (case fmt_duration f of None \<Rightarrow> 0 | Some d \<Rightarrow> d),
                        vi_bitrate := opt_or0 (fmt_bit_rate f)\<rparr>
                 in case fmt_format_name f of
                      None \<Rightarrow> i
                    | Some n \<Rightarrow>
                        if n = [] then i
                        else i\<lparr>vi_container :=
                               Some (toLowerCase (takeWhile (\<lambda>c. c \<noteq> CHR '','') n))\<rparr>))"
      have c1: "\<not> vi_corrupted info1"
        by (simp add: info1_def initial_info_def Let_def split: option.splits)
      obtain info2 hv where f: "foldl stream_step (info1, False) ss = (info2, hv)"
        by (cases "foldl stream_step (info1, False) ss") auto
      have c2: "\<not> vi_corrupted info2"
        using foldl_stream_step_flags [of "(info1, False)" ss] f c1 by simp
      have v2: "\<not> vi_valid info2"
        using foldl_stream_step_flags [of "(info1, False)" ss] f
        by (simp add: info1_def initial_info_def Let_def split: option.splits)
      have "getVideoInfo fs ffprobe p =
          (if \<not> hv then
             info2\<lparr>vi_corrupted := True, vi_error := Some ''No video stream found in file''\<rparr>
           else if vi_duration info2 \<le> 0 \<or> vi_width info2 \<le> 0 \<or> vi_height info2 \<le> 0 then
             info2\<lparr>vi_corrupted := True,
                   vi_error := Some ''Invalid video metadata (zero duration or dimensions)''\<rparr>
           else info2\<lparr>vi_valid := True\<rparr>)"
        using \<open>fs p = Some sz\<close> FfprobeData Some f unfolding getVideoInfo_def info1_def
        by (simp add: Let_def)
      with v v2 c2 show ?thesis by (simp split: if_splits)
    qed
  qed
qed

lemma Math_round_of_int: "Math_round (of_int n) = n"
  unfolding Math_round_def by (rule floor_unique) simp_all

lemma round2_300: "round2 300 = 300"
  using Math_round_of_int [of 30000] by (simp add: round2_def)

lemma round2_30001: "round2 (30001 / 100) = 30001 / 100"
  using Math_round_of_int [of 30001] by (simp add: round2_def)

lemma round2_10: "round2 10 = 10"
  using Math_round_of_int [of 1000] by (simp add: round2_def)

lemma size_limit: "(of_int sz :: rat) / (1024 * 1024) > MAX_SIZE_MB \<longleftrightarrow> 104857600 < sz"
proof -
  have "(of_int sz :: rat) / (1024 * 1024) > 100 \<longleftrightarrow> (of_int sz :: rat) > of_int 104857600"
    by (simp add: field_simps)
  also have "\<dots> \<longleftrightarrow> 104857600 < sz"
    by (simp only: of_int_less_iff)
  finally show ?thesis by (simp add: MAX_SIZE_MB_def)
qed

lemma validateInputVideo_too_large:
  assumes "fs p = Some sz" and "104857600 < sz"
  shows "\<not> vr_valid (validateInputVideo fs ffprobe p)
         \<and> vr_error_code (validateInputVideo fs ffprobe p) = Some FILE_TOO_LARGE"
  using assms size_limit [of sz] by (simp add: validateInputVideo_def Let_def)

lemma validateInputVideo_probed:
  assumes "fs p = Some sz" and "sz \<le> 104857600"
    and "vi_valid (getVideoInfo fs ffprobe p)"
    and "\<And>c. vi_video_codec (getVideoInfo fs ffprobe p) = Some c \<Longrightarrow> c \<in> set ALLOWED_CODECS"
  shows "vr_valid (validateInputVideo fs ffprobe p)
           = (vi_duration (getVideoInfo fs ffprobe p) \<le> MAX_DURATION)"
    and "vr_error_code (validateInputVideo fs ffprobe p)
           = (if vi_duration (getVideoInfo fs ffprobe p) \<le> MAX_DURATION then None
              else Some DURATION_TOO_LONG)"
proof -
  have nl: "\<not> (of_int sz :: rat) / (1024 * 1024) > MAX_SIZE_MB"
    using assms(2) size_limit [of sz] by simp
  have nc: "\<not> vi_corrupted (getVideoInfo fs ffprobe p)"
    using assms(3) by (rule getVideoInfo_valid_not_corrupted)
  show "vr_valid (validateInputVideo fs ffprobe p)
           = (vi_duration (getVideoInfo fs ffprobe p) \<le> MAX_DURATION)"
    using assms(1,3,4) nl nc
    by (auto simp: validateInputVideo_def Let_def split: option.splits)
  show "vr_error_code (validateInputVideo fs ffprobe p)
           = (if vi_duration (getVideoInfo fs ffprobe p) \<le> MAX_DURATION then None
              else Some DURATION_TOO_LONG)"
    using assms(1,3,4) nl nc
    by (auto simp: validateInputVideo_def Let_def split: option.splits)
qed

text \<open>
  C3.  For a file that exists and that \<open>ffprobe\<close> reports as a sound video with an
  allowed codec: a size above 100 MiB (so 100 MiB + 1 byte) is rejected with
  FILE_TOO_LARGE; at a size up to 100 MiB (so exactly 100 MiB), a duration of
  exactly 300 s is accepted and one of 300.01 s is rejected with DURATION_TOO_LONG.
\<close>

theorem validation_boundaries:
  assumes "fs p = Some sz"
    and "ffprobe p = FfprobeData (Some fmt) (Some streams)"
    and "fmt_duration fmt = Some d"
    and "vi_valid (getVideoInfo fs ffprobe p)"
    and "\<And>c. vi_video_codec (getVideoInfo fs ffprobe p) = Some c \<Longrightarrow> c \<in> set ALLOWED_CODECS"
  shows "(104857600 < sz \<longrightarrow>
            \<not> vr_valid (validateInputVideo fs ffprobe p)
            \<and> vr_error_code (validateInputVideo fs ffprobe p) = Some FILE_TOO_LARGE)
       \<and> (sz \<le> 104857600 \<and> d = 300 \<longrightarrow>
            vr_valid (validateInputVideo fs ffprobe p)
            \<and> vr_error_code (validateInputVideo fs ffprobe p) = None)
       \<and> (sz \<le> 104857600 \<and> d = 30001 / 100 \<longrightarrow>
            \<not> vr_valid (validateInputVideo fs ffprobe p)
            \<and> vr_error_code (validateInputVideo fs ffprobe p) = Some DURATION_TOO_LONG)"
proof -
  have dur: "vi_duration (getVideoInfo fs ffprobe p) = round2 d"
    using getVideoInfo_duration [of fs p sz ffprobe fmt streams d] assms(1-3) by simp
  have big: "104857600 < sz \<longrightarrow>
            \<not> vr_valid (validateInputVideo fs ffprobe p)
            \<and> vr_error_code (validateInputVideo fs ffprobe p) = Some FILE_TOO_LARGE"
    using validateInputVideo_too_large [of fs p sz ffprobe] assms(1) by simp
  have ok: "sz \<le> 104857600 \<and> d = 300 \<longrightarrow>
            vr_valid (validateInputVideo fs ffprobe p)
            \<and> vr_error_code (validateInputVideo fs ffprobe p) = None"
  proof
    assume h: "sz \<le> 104857600 \<and> d = 300"
    then have "vi_duration (getVideoInfo fs ffprobe p) = 300"
      using dur by (simp add: round2_300)
    with validateInputVideo_probed [of fs p sz ffprobe] assms(1,4,5) h
    show "vr_valid (validateInputVideo fs ffprobe p)
            \<and> vr_error_code (validateInputVideo fs ffprobe p) = None"
      by (simp add: MAX_DURATION_def)
  qed
  have long: "sz \<le> 104857600 \<and> d = 30001 / 100 \<longrightarrow>
            \<not> vr_valid (validateInputVideo fs ffprobe p)
            \<and> vr_error_code (validateInputVideo fs ffprobe p) = Some DURATION_TOO_LONG"
  proof
    assume h: "sz \<le> 104857600 \<and> d = 30001 / 100"
    then have "vi_duration (getVideoInfo fs ffprobe p) = 30001 / 100"
      using dur by (simp only: round2_30001)
    with validateInputVideo_probed [of fs p sz ffprobe] assms(1,4,5) h
    show "\<not> vr_valid (validateInputVideo fs ffprobe p)
            \<and> vr_error_code (validateInputVideo fs ffprobe p) = Some DURATION_TOO_LONG"
      by (simp add: MAX_DURATION_def)
  qed
  from big ok long show ?thesis by blast
qed

lemma example_probe_info:
  assumes "0 < round2 d"
  shows "getVideoInfo [p \<mapsto> sz] (\<lambda>_. example_probe d fmt) p
        = initial_info
            \<lparr>vi_valid := True, vi_duration := round2 d, vi_video_codec := Some ''h264'',
             vi_audio_codec := Some ''aac'',
             vi_container := (if fmt = [] then Some (toLowerCase (drop 1 (extname p)))
                              else Some (toLowerCase (takeWhile (\<lambda>c. c \<noteq> CHR '','') fmt))),
             vi_width := 1280, vi_height := 720, vi_resolution := Some ''1280x720'',
             vi_bitrate := 4000000, vi_file_size := sz,
             vi_file_size_mb := round2 (of_int sz / (1024 * 1024))\<rparr>"
proof -
  have w: "show_int 1280 = ''1280''" and h: "show_int 720 = ''720''"
    by (simp_all add: show_int_def show_nat.simps digit_char_def)
  have l: "toLowerCase ''h264'' = ''h264''" "toLowerCase ''aac'' = ''aac''"
    by (simp_all add: toLowerCase_def lower_char_def)
  show ?thesis
    using assms
    by (simp add: getVideoInfo_def example_probe_def initial_info_def stream_step_def
        codec_of_def opt_or0_def w h l Let_def)
qed

theorem validation_boundaries_witness:
  "vr_valid (validateInputVideo [''/uploads/2025/01/clip.mp4'' \<mapsto> 104857600]
               (\<lambda>_. example_probe 300 ''mov,mp4,m4a,3gp,3g2,mj2'') ''/uploads/2025/01/clip.mp4'')
   \<and> vr_error_code (validateInputVideo [''/uploads/2025/01/clip.mp4'' \<mapsto> 104857600]
               (\<lambda>_. example_probe (30001 / 100) ''mov,mp4,m4a,3gp,3g2,mj2'')
               ''/uploads/2025/01/clip.mp4'') = Some DURATION_TOO_LONG
   \<and> vr_error_code (validateInputVideo [''/uploads/2025/01/clip.mp4'' \<mapsto> 104857601]
               (\<lambda>_. example_probe 300 ''mov,mp4,m4a,3gp,3g2,mj2'')
               ''/uploads/2025/01/clip.mp4'') = Some FILE_TOO_LARGE"
proof -
  let ?p = "''/uploads/2025/01/clip.mp4''" and ?f = "''mov,mp4,m4a,3gp,3g2,mj2''"
  let ?fmt = "\<lambda>d. \<lparr>fmt_duration = Some d, fmt_bit_rate = Some 4000000, fmt_format_name = Some ?f\<rparr>"
  let ?ss = "[\<lparr>codec_type = ''video'', codec_name = Some ''h264'',
               st_width = Some 1280, st_height = Some 720\<rparr>,
              \<lparr>codec_type = ''audio'', codec_name = Some ''aac'',
               st_width = None, st_height = None\<rparr>]"
  have pr: "\<And>d. (\<lambda>_. example_probe d ?f) ?p = FfprobeData (Some (?fmt d)) (Some ?ss)"
    by (simp add: example_probe_def)
  have ok: "\<And>d sz. 0 < round2 d \<Longrightarrow>
      vi_valid (getVideoInfo [?p \<mapsto> sz] (\<lambda>_. example_probe d ?f) ?p)
      \<and> vi_video_codec (getVideoInfo [?p \<mapsto> sz] (\<lambda>_. example_probe d ?f) ?p) = Some ''h264''"
    by (subst (1 2) example_probe_info) simp_all
  have al: "''h264'' \<in> set ALLOWED_CODECS" by (simp add: ALLOWED_CODECS_def)
  have a: "vr_valid (validateInputVideo [?p \<mapsto> 104857600] (\<lambda>_. example_probe 300 ?f) ?p)"
    using validation_boundaries [of "[?p \<mapsto> 104857600]" ?p 104857600 "\<lambda>_. example_probe 300 ?f"
        "?fmt 300" ?ss 300] pr [of 300] ok [of 300 104857600] al
    by (simp add: round2_300)
  have b: "vr_error_code (validateInputVideo [?p \<mapsto> 104857600]
             (\<lambda>_. example_probe (30001 / 100) ?f) ?p) = Some DURATION_TOO_LONG"
    using validation_boundaries [of "[?p \<mapsto> 104857600]" ?p 104857600
        "\<lambda>_. example_probe (30001 / 100) ?f" "?fmt (30001 / 100)" ?ss "30001 / 100"]
      pr [of "30001 / 100"] ok [of "30001 / 100" 104857600] al
    by (simp add: round2_30001)
  have c: "vr_error_code (validateInputVideo [?p \<mapsto> 104857601]
             (\<lambda>_. example_probe 300 ?f) ?p) = Some FILE_TOO_LARGE"
    using validation_boundaries [of "[?p \<mapsto> 104857601]" ?p 104857601 "\<lambda>_. example_probe 300 ?f"
        "?fmt 300" ?ss 300] pr [of 300] ok [of 300 104857601] al
    by (simp add: round2_300)
  from a b c show ?thesis by simp
qed

text \<open>
  C4 (defect in the code).  \<open>validateInputVideo\<close> never looks at the container:
  an AVI file with an H.264 stream, 10 s long and 5 MiB large, passes validation
  although \<open>avi\<close> is not in \<open>ALLOWED_CONTAINERS\<close>.
\<close>

theorem avi_container_passes_validation:
  "vi_container (getVideoInfo [''/uploads/2025/01/clip.avi'' \<mapsto> 5242880]
                   (\<lambda>_. example_probe 10 ''avi'') ''/uploads/2025/01/clip.avi'') = Some ''avi''
   \<and> ''avi'' \<notin> set ALLOWED_CONTAINERS
   \<and> vr_valid (validateInputVideo [''/uploads/2025/01/clip.avi'' \<mapsto> 5242880]
                 (\<lambda>_. example_probe 10 ''avi'') ''/uploads/2025/01/clip.avi'')
   \<and> vr_error_code (validateInputVideo [''/uploads/2025/01/clip.avi'' \<mapsto> 5242880]
                 (\<lambda>_. example_probe 10 ''avi'') ''/uploads/2025/01/clip.avi'') = None"
proof -
  let ?p = "''/uploads/2025/01/clip.avi''"
  have i: "getVideoInfo [?p \<mapsto> 5242880] (\<lambda>_. example_probe 10 ''avi'') ?p
        = initial_info
            \<lparr>vi_valid := True, vi_duration := 10, vi_video_codec := Some ''h264'',
             vi_audio_codec := Some ''aac'', vi_container := Some ''avi'',
             vi_width := 1280, vi_height := 720, vi_resolution := Some ''1280x720'',
             vi_bitrate := 4000000, vi_file_size := 5242880,
             vi_file_size_mb := round2 (of_int 5242880 / (1024 * 1024))\<rparr>"
    by (subst example_probe_info) (simp_all add: round2_10 toLowerCase_def lower_char_def)
  have v: "vi_valid (getVideoInfo [?p \<mapsto> 5242880] (\<lambda>_. example_probe 10 ''avi'') ?p)"
    and c: "\<And>c. vi_video_codec (getVideoInfo [?p \<mapsto> 5242880] (\<lambda>_. example_probe 10 ''avi'') ?p)
              = Some c \<Longrightarrow> c \<in> set ALLOWED_CODECS"
    and d: "vi_duration (getVideoInfo [?p \<mapsto> 5242880] (\<lambda>_. example_probe 10 ''avi'') ?p) = 10"
    and k: "vi_container (getVideoInfo [?p \<mapsto> 5242880] (\<lambda>_. example_probe 10 ''avi'') ?p)
              = Some ''avi''"
    unfolding i by (auto simp: initial_info_def ALLOWED_CODECS_def)
  from validateInputVideo_probed [of "[?p \<mapsto> 5242880]" ?p 5242880 "\<lambda>_. example_probe 10 ''avi''"] v c
  show ?thesis
    using d k by (simp add: MAX_DURATION_def ALLOWED_CONTAINERS_def)
qed

subsection \<open>HLS conversion and the master playlist\<close>

lemma hls_loop_step:
  "\<exists>st'. hls_loop fs cv paths hlsDir dur (quality # rest) st
           = hls_loop fs cv paths hlsDir dur rest st'
       \<and> convertedQualities st'
           = (if segmented fs cv paths hlsDir dur quality
              then (convertedQualities st)(quality := converted_entry cv paths hlsDir dur quality)
              else convertedQualities st)
       \<and> availableQualities st'
           = (if segmented fs cv paths hlsDir dur quality
              then availableQualities st @ [quality] else availableQualities st)"
proof (cases "vp_compressed paths (''compressed_'' @ quality)")
  case None
  then show ?thesis by (intro exI [of _ st]) (simp add: segmented_def)
next
  case (Some mp4)
  show ?thesis
  proof (cases "mp4 = [] \<or> fs mp4 = None")
    case True
    with Some show ?thesis by (intro exI [of _ st]) (auto simp: segmented_def)
  next
    case False
    let ?r = "cv mp4 hlsDir quality dur False"
    let ?st1 = "st\<lparr>segmenter_calls := segmenter_calls st @ [(quality, dur, False)]\<rparr>"
    show ?thesis
    proof (cases "seg_playlist ?r")
      case None
      with Some False show ?thesis
        by (intro exI [of _ ?st1]) (auto simp: segmented_def HLS_REENCODE_SEGMENTS_def Let_def)
    next
      case pl: (Some pl)
      show ?thesis
      proof (cases "seg_segmentCount ?r")
        case None
        with Some False pl show ?thesis
          by (intro exI [of _ ?st1]) (auto simp: segmented_def HLS_REENCODE_SEGMENTS_def Let_def)
      next
        case n: (Some n)
        show ?thesis
        proof (cases "seg_success ?r \<and> pl \<noteq> [] \<and> n \<noteq> 0")
          case True
          with Some False pl n show ?thesis
            by (intro exI [of _ "?st1\<lparr>convertedQualities :=
                                (convertedQualities ?st1)
                                  (quality \<mapsto> \<lparr>cq_playlist = pl, cq_segmentCount = n,
                                               cq_mp4Path = mp4\<rparr>),
                              availableQualities := availableQualities ?st1 @ [quality]\<rparr>"])
              (auto simp: segmented_def converted_entry_def HLS_REENCODE_SEGMENTS_def Let_def)
        next
          case no: False
          with Some False pl n show ?thesis
            by (intro exI [of _ ?st1])
              (auto simp: segmented_def converted_entry_def HLS_REENCODE_SEGMENTS_def Let_def)
        qed
      qed
    qed
  qed
qed

lemma hls_loop_converted:
  "convertedQualities (hls_loop fs cv paths hlsDir dur qs st)
     = (\<lambda>q. if q \<in> set qs \<and> segmented fs cv paths hlsDir dur q
             then converted_entry cv paths hlsDir dur q
             else convertedQualities st q)"
proof (induction qs arbitrary: st)
  case Nil
  then show ?case by simp
next
  case (Cons quality rest)
  from hls_loop_step [of fs cv paths hlsDir dur quality rest st]
  obtain st' where s: "hls_loop fs cv paths hlsDir dur (quality # rest) st
           = hls_loop fs cv paths hlsDir dur rest st'"
    and c: "convertedQualities st'
           = (if segmented fs cv paths hlsDir dur quality
              then (convertedQualities st)(quality := converted_entry cv paths hlsDir dur quality)
              else convertedQualities st)"
    by blast
  show ?case
    unfolding s Cons.IH c by (rule ext) auto
qed

lemma hls_loop_available:
  "availableQualities (hls_loop fs cv paths hlsDir dur qs st)
     = availableQualities st @ filter (segmented fs cv paths hlsDir dur) qs"
proof (induction qs arbitrary: st)
  case Nil
  then show ?case by simp
next
  case (Cons quality rest)
  from hls_loop_step [of fs cv paths hlsDir dur quality rest st]
  obtain st' where s: "hls_loop fs cv paths hlsDir dur (quality # rest) st
           = hls_loop fs cv paths hlsDir dur rest st'"
    and a: "availableQualities st'
           = (if segmented fs cv paths hlsDir dur quality
              then availableQualities st @ [quality] else availableQualities st)"
    by blast
  show ?case
    unfolding s Cons.IH a by simp
qed

lemma hls_loop_calls:
  "list_all (\<lambda>c. fst (snd c) = dur) (segmenter_calls st) \<Longrightarrow>
   list_all (\<lambda>c. fst (snd c) = dur) (segmenter_calls (hls_loop fs cv paths hlsDir dur qs st))"
proof (induction qs arbitrary: st)
  case Nil
  then show ?case by simp
next
  case (Cons quality rest)
  let ?st1 = "st\<lparr>segmenter_calls := segmenter_calls st @ [(quality, dur, HLS_REENCODE_SEGMENTS)]\<rparr>"
  have a1: "list_all (\<lambda>c. fst (snd c) = dur) (segmenter_calls ?st1)"
    using Cons.prems by simp
  show ?case
    using Cons.IH [OF Cons.prems] Cons.IH [of ?st1] Cons.IH a1
    by (auto simp: Let_def split: option.splits)
qed

declare hls_loop.simps [simp del]

lemma master_loop_lines:
  assumes "\<And>q. q \<in> set qs \<Longrightarrow> HLS_QUALITIES q \<noteq> None"
    and "\<And>q qd. conv q = Some qd \<Longrightarrow> vp_compressed paths (''compressed_'' @ q) = Some (cq_mp4Path qd)"
  shows "master_loop (getVideoInfo fs ffprobe) conv qs content
       = Inr (content @ unlines (concat (map (variant_lines fs ffprobe paths)
                                         (filter (\<lambda>q. conv q \<noteq> None) qs))))"
  using assms(1)
proof (induction qs arbitrary: content)
  case Nil
  then show ?case by (simp add: unlines_def)
next
  case (Cons quality rest)
  then obtain hc where hc: "HLS_QUALITIES quality = Some hc" by auto
  have ih: "\<And>c. master_loop (getVideoInfo fs ffprobe) conv rest c
       = Inr (c @ unlines (concat (map (variant_lines fs ffprobe paths)
                                    (filter (\<lambda>q. conv q \<noteq> None) rest))))"
    using Cons by simp
  show ?case
  proof (cases "conv quality")
    case None
    then show ?thesis by (simp add: ih)
  next
    case (Some qd)
    with assms(2) have p: "vp_compressed paths (''compressed_'' @ quality) = Some (cq_mp4Path qd)"
      by simp
    have vl: "variant_lines fs ffprobe paths quality
        = [stream_inf_line hc (actual_resolution (getVideoInfo fs ffprobe (cq_mp4Path qd)) hc) quality,
           quality @ ''.m3u8'']"
      using hc p by (simp add: variant_lines_def)
    show ?thesis
      using Some hc
      by (simp add: ih vl stream_inf_line_def actual_resolution_def unlines_def Let_def)
  qed
qed

lemma qualityOrder_known: "q \<in> set qualityOrder \<Longrightarrow> HLS_QUALITIES q \<noteq> None"
  by (auto simp: qualityOrder_def HLS_QUALITIES_def)

lemma converted_entry_path:
  "converted_entry cv paths hlsDir dur q = Some qd \<Longrightarrow>
   vp_compressed paths (''compressed_'' @ q) = Some (cq_mp4Path qd)"
  by (auto simp: converted_entry_def Let_def split: option.splits)

lemma segmented_converted:
  "segmented fs cv paths hlsDir dur q \<Longrightarrow> converted_entry cv paths hlsDir dur q \<noteq> None"
  by (auto simp: segmented_def converted_entry_def Let_def split: option.splits)

lemma segmented_variant_lines:
  assumes "segmented fs cv paths hlsDir dur q" and "q \<in> set qualityOrder"
  shows "\<exists>hc mp4. HLS_QUALITIES q = Some hc
           \<and> vp_compressed paths (''compressed_'' @ q) = Some mp4
           \<and> variant_lines fs ffprobe paths q
               = [stream_inf_line hc (actual_resolution (getVideoInfo fs ffprobe mp4) hc) q,
                  q @ ''.m3u8'']"
proof -
  from assms(1) obtain mp4 where "vp_compressed paths (''compressed_'' @ q) = Some mp4"
    by (auto simp: segmented_def split: option.splits)
  moreover from qualityOrder_known [OF assms(2)] obtain hc where "HLS_QUALITIES q = Some hc"
    by auto
  ultimately show ?thesis by (simp add: variant_lines_def)
qed

lemma convertToHLSStreaming_written:
  assumes "convertToHLSStreaming cfg fs ffprobe cv write_error paths pid yr mo
             = (res, calls, Some (path, content))"
  shows "content = unlines ([''#EXTM3U'', ''#EXT-X-VERSION:3'', []]
               @ concat (map (variant_lines fs ffprobe paths)
                          (filter (segmented fs cv paths (path_join (vp_output_dir paths) ''hls'')
                                     (getHlsSegmentDuration cfg)) qualityOrder)))"
    and "path = path_join (path_join (vp_output_dir paths) ''hls'') ''master.m3u8''"
    and "hls_qualities res
           = filter (segmented fs cv paths (path_join (vp_output_dir paths) ''hls'')
                       (getHlsSegmentDuration cfg)) [''480p'', ''360p'', ''240p'', ''144p'']"
proof -
  let ?dir = "path_join (vp_output_dir paths) ''hls''"
  let ?dur = "getHlsSegmentDuration cfg"
  let ?qs = "[''480p'', ''360p'', ''240p'', ''144p'']"
  let ?st0 = "\<lparr>convertedQualities = Map.empty, availableQualities = [], segmenter_calls = []\<rparr>"
  let ?st = "hls_loop fs cv paths ?dir ?dur ?qs ?st0"
  let ?seg = "segmented fs cv paths ?dir ?dur"
  from assms have g: "generateMasterPlaylist (getVideoInfo fs ffprobe) write_error ?dir
                        (convertedQualities ?st) = Inr (path, content)"
    and r: "hls_qualities res = availableQualities ?st"
    by (auto simp: convertToHLSStreaming_def Let_def hls_failure_def
        split: if_splits sum.splits)
  have conv: "convertedQualities ?st
      = (\<lambda>q. if q \<in> set ?qs \<and> ?seg q then converted_entry cv paths ?dir ?dur q else None)"
    by (rule ext) (simp only: hls_loop_converted, simp)
  have p: "\<And>q qd. convertedQualities ?st q = Some qd \<Longrightarrow>
             vp_compressed paths (''compressed_'' @ q) = Some (cq_mp4Path qd)"
    unfolding conv by (auto dest: converted_entry_path split: if_splits)
  have f: "filter (\<lambda>q. convertedQualities ?st q \<noteq> None) qualityOrder = filter ?seg qualityOrder"
    unfolding conv
    by (rule filter_cong) (auto simp: qualityOrder_def dest: segmented_converted)
  from master_loop_lines [of qualityOrder "convertedQualities ?st" paths fs ffprobe
      "''#EXTM3U'' @ newline @ ''#EXT-X-VERSION:3'' @ newline @ newline"] qualityOrder_known p
  have m: "master_loop (getVideoInfo fs ffprobe) (convertedQualities ?st) qualityOrder
             (''#EXTM3U'' @ newline @ ''#EXT-X-VERSION:3'' @ newline @ newline)
         = Inr ((''#EXTM3U'' @ newline @ ''#EXT-X-VERSION:3'' @ newline @ newline)
                @ unlines (concat (map (variant_lines fs ffprobe paths) (filter ?seg qualityOrder))))"
    unfolding f by blast
  from g m show "content = unlines ([''#EXTM3U'', ''#EXT-X-VERSION:3'', []]
               @ concat (map (variant_lines fs ffprobe paths) (filter ?seg qualityOrder)))"
    by (auto simp: generateMasterPlaylist_def Let_def unlines_def split: option.splits)
  from g m show "path = path_join ?dir ''master.m3u8''"
    by (auto simp: generateMasterPlaylist_def Let_def split: option.splits)
  from r show "hls_qualities res = filter ?seg ?qs"
    by (simp only: hls_loop_available) simp
qed

text \<open>
  C6.  Whenever \<open>convertToHLSStreaming\<close> writes a master playlist, its content is
  the line \<open>#EXTM3U\<close>, the line \<open>#EXT-X-VERSION:3\<close>, an empty line, and then, for
  exactly the segmented qualities in the order 144p, 240p, 360p, 480p, the two lines
  of the variant: one \<open>#EXT-X-STREAM-INF\<close> line with BANDWIDTH, AVERAGE-BANDWIDTH,
  RESOLUTION, CODECS and NAME, and the file name of the variant playlist.
\<close>

theorem master_playlist_lists_segmented_variants:
  assumes "convertToHLSStreaming cfg fs ffprobe cv write_error paths pid yr mo
             = (res, calls, Some (path, content))"
  shows "content = unlines ([''#EXTM3U'', ''#EXT-X-VERSION:3'', []]
               @ concat (map (variant_lines fs ffprobe paths)
                          (filter (segmented fs cv paths (path_join (vp_output_dir paths) ''hls'')
                                     (getHlsSegmentDuration cfg))
                             [''144p'', ''240p'', ''360p'', ''480p''])))
       \<and> (\<forall>q \<in> set [''144p'', ''240p'', ''360p'', ''480p''].
            segmented fs cv paths (path_join (vp_output_dir paths) ''hls'')
              (getHlsSegmentDuration cfg) q \<longrightarrow>
            (\<exists>hc mp4. HLS_QUALITIES q = Some hc
               \<and> vp_compressed paths (''compressed_'' @ q) = Some mp4
               \<and> variant_lines fs ffprobe paths q
                   = [stream_inf_line hc (actual_resolution (getVideoInfo fs ffprobe mp4) hc) q,
                      q @ ''.m3u8'']))"
proof -
  have q: "[''144p'', ''240p'', ''360p'', ''480p''] = qualityOrder"
    by (simp add: qualityOrder_def)
  show ?thesis
    unfolding q
    using convertToHLSStreaming_written(1) [OF assms] segmented_variant_lines
    by blast
qed

lemma example_conversion_writes_master:
  "\<exists>res calls content.
     convertToHLSStreaming (env_cfg example_env) example_fs example_ffprobe example_segmenter
       None example_paths 42 2025 1
     = (res, calls, Some (''/content/2025/01/42/hls/master.m3u8'', content))"
proof -
  let ?st0 = "\<lparr>convertedQualities = Map.empty, availableQualities = [], segmenter_calls = []\<rparr>"
  let ?st = "hls_loop example_fs example_segmenter example_paths ''/content/2025/01/42/hls''
               (getHlsSegmentDuration (env_cfg example_env)) [''480p'', ''360p'', ''240p'', ''144p''] ?st0"
  have a: "availableQualities ?st \<noteq> []"
    by (simp only: hls_loop_available)
      (simp add: segmented_def example_paths_def example_fs_def example_segmenter_def path_join_def)
  have k: "\<And>q. q \<in> set qualityOrder \<Longrightarrow> HLS_QUALITIES q \<noteq> None"
    by (rule qualityOrder_known)
  have p: "\<And>q qd. convertedQualities ?st q = Some qd \<Longrightarrow>
             vp_compressed example_paths (''compressed_'' @ q) = Some (cq_mp4Path qd)"
    by (simp only: hls_loop_converted) (auto dest: converted_entry_path split: if_splits)
  from master_loop_lines [of qualityOrder "convertedQualities ?st" example_paths example_fs
      example_ffprobe "''#EXTM3U'' @ newline @ ''#EXT-X-VERSION:3'' @ newline @ newline", OF k p]
  obtain c where "generateMasterPlaylist (getVideoInfo example_fs example_ffprobe) None
                    ''/content/2025/01/42/hls'' (convertedQualities ?st)
                  = Inr (''/content/2025/01/42/hls/master.m3u8'', c)"
    by (simp add: generateMasterPlaylist_def path_join_def)
  with a show ?thesis
    by (simp add: convertToHLSStreaming_def example_paths_def path_join_def Let_def)
qed

theorem master_playlist_lists_segmented_variants_witness:
  "\<exists>res calls.
     convertToHLSStreaming (env_cfg example_env) example_fs example_ffprobe example_segmenter
       None example_paths 42 2025 1
     = (res, calls,
        Some (''/content/2025/01/42/hls/master.m3u8'',
              unlines
                [''#EXTM3U'',
                 ''#EXT-X-VERSION:3'',
                 [],
                 ''#EXT-X-STREAM-INF:BANDWIDTH=325000,AVERAGE-BANDWIDTH=250000,RESOLUTION=82x144,CODECS=''
                   @ dquote @ ''avc1.4d000d,mp4a.40.2'' @ dquote @ '',NAME='' @ dquote @ ''144p'' @ dquote,
                 ''144p.m3u8'',
                 ''#EXT-X-STREAM-INF:BANDWIDTH=850000,AVERAGE-BANDWIDTH=600000,RESOLUTION=640x360,CODECS=''
                   @ dquote @ ''avc1.4d001f,mp4a.40.2'' @ dquote @ '',NAME='' @ dquote @ ''360p'' @ dquote,
                 ''360p.m3u8'',
                 ''#EXT-X-STREAM-INF:BANDWIDTH=1300000,AVERAGE-BANDWIDTH=900000,RESOLUTION=854x480,CODECS=''
                   @ dquote @ ''avc1.4d001f,mp4a.40.2'' @ dquote @ '',NAME='' @ dquote @ ''480p'' @ dquote,
                 ''480p.m3u8'']))"
proof -
  from example_conversion_writes_master obtain res calls content where
    e: "convertToHLSStreaming (env_cfg example_env) example_fs example_ffprobe example_segmenter
          None example_paths 42 2025 1
        = (res, calls, Some (''/content/2025/01/42/hls/master.m3u8'', content))"
    by blast
  have n: "show_int 325000 = ''325000''" "show_int 250000 = ''250000''"
    "show_int 850000 = ''850000''" "show_int 600000 = ''600000''"
    "show_int 1300000 = ''1300000''" "show_int 900000 = ''900000''"
    "show_int 82 = ''82''" "show_int 144 = ''144''"
    by (simp_all add: show_int_def show_nat.simps digit_char_def)
  have i144: "actual_resolution
                (getVideoInfo example_fs example_ffprobe ''/content/2025/01/42/compressed_144p.mp4'')
                hc = ''82x144''" for hc
    using Math_round_of_int [of 1000]
    by (simp add: actual_resolution_def getVideoInfo_def example_fs_def example_ffprobe_def
        initial_info_def stream_step_def codec_of_def opt_or0_def round2_def n Let_def)
  have iother: "p \<noteq> ''/content/2025/01/42/compressed_144p.mp4'' \<Longrightarrow>
                actual_resolution (getVideoInfo example_fs example_ffprobe p) hc = hq_resolution hc"
    for p hc
    by (simp add: actual_resolution_def getVideoInfo_def example_ffprobe_def initial_info_def
        Let_def split: option.splits)
  from master_playlist_lists_segmented_variants [OF e]
  have "content = unlines ([''#EXTM3U'', ''#EXT-X-VERSION:3'', []]
               @ concat (map (variant_lines example_fs example_ffprobe example_paths)
                          (filter (segmented example_fs example_segmenter example_paths
                                     (path_join (vp_output_dir example_paths) ''hls'')
                                     (getHlsSegmentDuration (env_cfg example_env)))
                             [''144p'', ''240p'', ''360p'', ''480p''])))"
    by blast
  then have "content = unlines
                [''#EXTM3U'',
                 ''#EXT-X-VERSION:3'',
                 [],
                 ''#EXT-X-STREAM-INF:BANDWIDTH=325000,AVERAGE-BANDWIDTH=250000,RESOLUTION=82x144,CODECS=''
                   @ dquote @ ''avc1.4d000d,mp4a.40.2'' @ dquote @ '',NAME='' @ dquote @ ''144p'' @ dquote,
                 ''144p.m3u8'',
                 ''#EXT-X-STREAM-INF:BANDWIDTH=850000,AVERAGE-BANDWIDTH=600000,RESOLUTION=640x360,CODECS=''
                   @ dquote @ ''avc1.4d001f,mp4a.40.2'' @ dquote @ '',NAME='' @ dquote @ ''360p'' @ dquote,
                 ''360p.m3u8'',
                 ''#EXT-X-STREAM-INF:BANDWIDTH=1300000,AVERAGE-BANDWIDTH=900000,RESOLUTION=854x480,CODECS=''
                   @ dquote @ ''avc1.4d001f,mp4a.40.2'' @ dquote @ '',NAME='' @ dquote @ ''480p'' @ dquote,
                 ''480p.m3u8'']"
    by (simp add: segmented_def variant_lines_def stream_inf_line_def example_paths_def
        example_fs_def example_segmenter_def HLS_QUALITIES_def path_join_def
        i144 [unfolded example_fs_def] iother [unfolded example_fs_def] n)
  with e show ?thesis by blast
qed

subsection \<open>Segment duration\<close>

text \<open>
  C9.  For every configured \<open>HLS_TIME\<close> the segment duration is
  \<open>min (max HLS_TIME 2) 3\<close>, so it lies between 2 and 3; it is the duration of
  every call \<open>convertToHLSStreaming\<close> makes to the segmenter and the \<open>-hls_time\<close>
  option of the segmenter; the keyframe interval of \<open>compressVideo\<close> is the same
  number and is the one in its \<open>-force_key_frames\<close> option.
\<close>

theorem hls_segment_duration_clamped:
  "getHlsSegmentDuration cfg = min (max (hls_time cfg) 2) 3
   \<and> 2 \<le> getHlsSegmentDuration cfg \<and> getHlsSegmentDuration cfg \<le> 3
   \<and> getHlsKeyframeInterval cfg = getHlsSegmentDuration cfg
   \<and> list_all (\<lambda>c. fst (snd c) = min (max (hls_time cfg) 2) 3)
        (fst (snd (convertToHLSStreaming cfg fs ffprobe cv write_error paths pid yr mo)))
   \<and> (''-hls_time '' @ show_int (min (max (hls_time cfg) 2) 3))
        \<in> set (convertToHLS_outputOptions dir q (getHlsSegmentDuration cfg) reencode)
   \<and> (''-force_key_frames expr:gte(t,n_forced*'' @ show_int (min (max (hls_time cfg) 2) 3) @ '')'')
        \<in> set (compressVideo_outputOptions cfg options)"
proof -
  have d: "getHlsSegmentDuration cfg = min (max (hls_time cfg) 2) 3"
    by (simp add: getHlsSegmentDuration_def num_or_def)
  have k: "getHlsKeyframeInterval cfg = min (max (hls_time cfg) 2) 3"
    by (simp add: getHlsKeyframeInterval_def num_or_def)
  let ?st0 = "\<lparr>convertedQualities = Map.empty, availableQualities = [], segmenter_calls = []\<rparr>"
  have "list_all (\<lambda>c. fst (snd c) = getHlsSegmentDuration cfg)
          (segmenter_calls (hls_loop fs cv paths (path_join (vp_output_dir paths) ''hls'')
             (getHlsSegmentDuration cfg) [''480p'', ''360p'', ''240p'', ''144p''] ?st0))"
    by (rule hls_loop_calls) simp
  then have c: "list_all (\<lambda>c. fst (snd c) = min (max (hls_time cfg) 2) 3)
        (fst (snd (convertToHLSStreaming cfg fs ffprobe cv write_error paths pid yr mo)))"
    by (simp add: convertToHLSStreaming_def Let_def d split: sum.splits)
  have h: "(''-hls_time '' @ show_int (min (max (hls_time cfg) 2) 3))
        \<in> set (convertToHLS_outputOptions dir q (getHlsSegmentDuration cfg) reencode)"
    unfolding d by (simp add: convertToHLS_outputOptions_def Let_def)
  have f: "(''-force_key_frames expr:gte(t,n_forced*'' @ show_int (min (max (hls_time cfg) 2) 3) @ '')'')
        \<in> set (compressVideo_outputOptions cfg options)"
    unfolding compressVideo_outputOptions_def k by (simp add: Let_def)
  from d k c h f show ?thesis by simp
qed

theorem hls_segment_duration_clamped_witness:
  "getHlsSegmentDuration ((env_cfg example_env)\<lparr>hls_time := 10\<rparr>) = 3
   \<and> getHlsKeyframeInterval ((env_cfg example_env)\<lparr>hls_time := 10\<rparr>) = 3
   \<and> getHlsSegmentDuration ((env_cfg example_env)\<lparr>hls_time := 0\<rparr>) = 2
   \<and> getHlsSegmentDuration ((env_cfg example_env)\<lparr>hls_time := - 4\<rparr>) = 2
   \<and> getHlsSegmentDuration ((env_cfg example_env)\<lparr>hls_time := 3\<rparr>) = 3"
  using hls_segment_duration_clamped [of "(env_cfg example_env)\<lparr>hls_time := 10\<rparr>"]
    hls_segment_duration_clamped [of "(env_cfg example_env)\<lparr>hls_time := 0\<rparr>"]
    hls_segment_duration_clamped [of "(env_cfg example_env)\<lparr>hls_time := - 4\<rparr>"]
    hls_segment_duration_clamped [of "(env_cfg example_env)\<lparr>hls_time := 3\<rparr>"]
  by simp

subsection \<open>Transcoding one quality\<close>

text \<open>
  C10 (amended).  When the transcoder run of an existing input ends with an error,
  \<open>compressVideo\<close> reports the failure with the error message of the transcoder
  and, unless deleting the file throws, leaves no file at the output path; when
  deleting throws, the exception is ignored and the partial file stays.  A
  transcode is reported as a success only if the output file exists and has at
  least 1024 bytes.
\<close>

theorem transcode_error_cleanup:
  assumes "fs inputPath \<noteq> None"
  shows "\<not> cr_success (fst (compressVideo fs inputPath outputPath options (FfmpegError msg out) unlink_throws))
       \<and> cr_error (fst (compressVideo fs inputPath outputPath options (FfmpegError msg out) unlink_throws))
           = Some msg
       \<and> (\<not> unlink_throws \<longrightarrow>
            snd (compressVideo fs inputPath outputPath options (FfmpegError msg out) unlink_throws)
              outputPath = None)
       \<and> (unlink_throws \<longrightarrow>
            snd (compressVideo fs inputPath outputPath options (FfmpegError msg out) unlink_throws)
              outputPath = out)
       \<and> (cr_success (fst (compressVideo fs inputPath outputPath options run unlink_throws)) \<longrightarrow>
            (\<exists>sz. snd (compressVideo fs inputPath outputPath options run unlink_throws) outputPath
                    = Some sz \<and> 1024 \<le> sz))"
  using assms
  by (cases run) (auto simp: compressVideo_def Let_def split: option.splits)

theorem transcode_error_cleanup_witness:
  "\<not> cr_success (fst (compressVideo [''/uploads/2025/01/clip.mp4'' \<mapsto> 5242880]
                        ''/uploads/2025/01/clip.mp4'' ''/content/2025/01/42/compressed_240p.mp4''
                        \<lparr>opt_width = 426, opt_height = 240, opt_bitrate = ''300k'',
                         opt_maxrate = ''450k'', opt_bufsize = ''900k'', opt_quality = ''240p'',
                         opt_crf = None\<rparr>
                        (FfmpegError ''ffmpeg exited with code 1'' (Some 4096)) False))
   \<and> snd (compressVideo [''/uploads/2025/01/clip.mp4'' \<mapsto> 5242880]
            ''/uploads/2025/01/clip.mp4'' ''/content/2025/01/42/compressed_240p.mp4''
            \<lparr>opt_width = 426, opt_height = 240, opt_bitrate = ''300k'',
             opt_maxrate = ''450k'', opt_bufsize = ''900k'', opt_quality = ''240p'',
             opt_crf = None\<rparr>
            (FfmpegError ''ffmpeg exited with code 1'' (Some 4096)) False)
         ''/content/2025/01/42/compressed_240p.mp4'' = None"
  using transcode_error_cleanup
    [of "[''/uploads/2025/01/clip.mp4'' \<mapsto> 5242880]" "''/uploads/2025/01/clip.mp4''"
        "''/content/2025/01/42/compressed_240p.mp4''"
        "\<lparr>opt_width = 426, opt_height = 240, opt_bitrate = ''300k'',
          opt_maxrate = ''450k'', opt_bufsize = ''900k'', opt_quality = ''240p'',
          opt_crf = None\<rparr>"
        "''ffmpeg exited with code 1''" "Some 4096" False]
  by simp

text \<open>
  The claim as stated fails when the deletion of the partial file throws: the
  failure is reported and the file of 4096 bytes is still at the output path.
\<close>

theorem partial_file_survives_failed_unlink_counterexample:
  "\<not> cr_success (fst (compressVideo [''/uploads/2025/01/clip.mp4'' \<mapsto> 5242880]
                        ''/uploads/2025/01/clip.mp4'' ''/content/2025/01/42/compressed_240p.mp4''
                        \<lparr>opt_width = 426, opt_height = 240, opt_bitrate = ''300k'',
                         opt_maxrate = ''450k'', opt_bufsize = ''900k'', opt_quality = ''240p'',
                         opt_crf = None\<rparr>
                        (FfmpegError ''ffmpeg exited with code 1'' (Some 4096)) True))
   \<and> snd (compressVideo [''/uploads/2025/01/clip.mp4'' \<mapsto> 5242880]
            ''/uploads/2025/01/clip.mp4'' ''/content/2025/01/42/compressed_240p.mp4''
            \<lparr>opt_width = 426, opt_height = 240, opt_bitrate = ''300k'',
             opt_maxrate = ''450k'', opt_bufsize = ''900k'', opt_quality = ''240p'',
             opt_crf = None\<rparr>
            (FfmpegError ''ffmpeg exited with code 1'' (Some 4096)) True)
         ''/content/2025/01/42/compressed_240p.mp4'' = Some 4096"
  by (simp add: compressVideo_def)

subsection \<open>URL validation and downloads\<close>

lemma split_on_no_sep: "c \<notin> set xs \<Longrightarrow> split_on c xs = [xs]"
  by (induction xs) auto

lemma split_on_append: "c \<notin> set xs \<Longrightarrow> split_on c (xs @ c # ys) = xs # split_on c ys"
  by (induction xs) auto

lemma not_digit_dot: "\<not> is_digit CHR ''.''"
  by (simp add: is_digit_def)

lemma show_nat_no_dot: "CHR ''.'' \<notin> set (show_nat n)"
  using show_nat_digits [of "CHR ''.''" n] not_digit_dot by blast

lemma split_ipv4_text:
  "split_on CHR ''.'' (ipv4_text a b c d) = [show_nat a, show_nat b, show_nat c, show_nat d]"
  by (simp add: ipv4_text_def split_on_append split_on_no_sep show_nat_no_dot)

lemma show_nat_length: "n < 1000 \<Longrightarrow> length (show_nat n) \<le> 3"
  by (subst show_nat.simps, simp, subst show_nat.simps, simp, subst show_nat.simps, simp)

lemma digits_1_3_show_nat: "n \<le> 255 \<Longrightarrow> digits_1_3 (show_nat n)"
proof -
  assume "n \<le> 255"
  then have "length (show_nat n) \<le> 3" by (intro show_nat_length) simp
  moreover have "length (show_nat n) \<ge> 1"
    using show_nat_nonempty [of n] by (cases "show_nat n") auto
  moreover have "list_all is_digit (show_nat n)"
    by (simp add: list_all_iff show_nat_digits)
  ultimately show ?thesis by (simp add: digits_1_3_def)
qed

lemma show_nat_two_digits:
  "10 \<le> n \<Longrightarrow> n < 100 \<Longrightarrow> show_nat n = [digit_char (n div 10), digit_char (n mod 10)]"
  by (subst show_nat.simps, simp, subst show_nat.simps, simp)

lemma seg_16_31_show_nat: "16 \<le> b \<Longrightarrow> b \<le> 31 \<Longrightarrow> seg_16_31 (show_nat b)"
proof -
  assume "16 \<le> b" "b \<le> 31"
  then have "b \<in> {16, 17, 18, 19, 20, 21, 22, 23, 24, 25, 26, 27, 28, 29, 30, 31}"
    by simp presburger
  then show ?thesis
    by (auto simp: show_nat_two_digits seg_16_31_def digit_char_def is_digit_def)
qed

lemma show_nat_consts:
  "show_nat 127 = ''127''" "show_nat 10 = ''10''" "show_nat 172 = ''172''"
  "show_nat 192 = ''192''" "show_nat 168 = ''168''" "show_nat 169 = ''169''"
  "show_nat 254 = ''254''" "show_nat 0 = ''0''"
  by (simp_all add: show_nat.simps digit_char_def)

lemma lower_char_digit: "is_digit c \<Longrightarrow> lower_char c = c"
  by (auto simp: is_digit_def lower_char_def)

lemma private_ipv4_matches:
  assumes "private_ipv4 a b c d"
  shows "list_ex (\<lambda>pattern. pattern (ipv4_text a b c d)) privatePatterns"
proof -
  from assms have r: "a \<le> 255" "b \<le> 255" "c \<le> 255" "d \<le> 255"
    by (simp_all add: private_ipv4_def)
  note dg = digits_1_3_show_nat [OF r(2)] digits_1_3_show_nat [OF r(3)] digits_1_3_show_nat [OF r(4)]
  from assms consider "a = 127" | "a = 10" | "a = 172 \<and> 16 \<le> b \<and> b \<le> 31"
    | "a = 192 \<and> b = 168" | "a = 169 \<and> b = 254" | "a = 0 \<and> b = 0 \<and> c = 0 \<and> d = 0"
    by (auto simp: private_ipv4_def)
  then show ?thesis
  proof cases
    case 1
    then have "match_quad (\<lambda>a. a = ''127'') digits_1_3 (ipv4_text a b c d)"
      using dg by (simp add: match_quad_def split_ipv4_text show_nat_consts)
    then show ?thesis by (simp add: privatePatterns_def)
  next
    case 2
    then have "match_quad (\<lambda>a. a = ''10'') digits_1_3 (ipv4_text a b c d)"
      using dg by (simp add: match_quad_def split_ipv4_text show_nat_consts)
    then show ?thesis by (simp add: privatePatterns_def)
  next
    case 3
    then have "match_quad (\<lambda>a. a = ''172'') seg_16_31 (ipv4_text a b c d)"
      using dg by (simp add: match_quad_def split_ipv4_text show_nat_consts seg_16_31_show_nat)
    then show ?thesis by (simp add: privatePatterns_def)
  next
    case 4
    then have "match_quad (\<lambda>a. a = ''192'') (\<lambda>b. b = ''168'') (ipv4_text a b c d)"
      using dg by (simp add: match_quad_def split_ipv4_text show_nat_consts)
    then show ?thesis by (simp add: privatePatterns_def)
  next
    case 5
    then have "match_quad (\<lambda>a. a = ''169'') (\<lambda>b. b = ''254'') (ipv4_text a b c d)"
      using dg by (simp add: match_quad_def split_ipv4_text show_nat_consts)
    then show ?thesis by (simp add: privatePatterns_def)
  next
    case 6
    then have "ipv4_text a b c d = ''0.0.0.0''"
      by (simp add: ipv4_text_def show_nat_consts)
    then show ?thesis by (simp add: privatePatterns_def)
  qed
qed

lemma lower_char_idem: "lower_char (lower_char c) = lower_char c"
proof (cases "65 \<le> (of_char c :: nat) \<and> (of_char c :: nat) \<le> 90")
  case True
  then have "(of_char (char_of ((of_char c :: nat) + 32)) :: nat) = of_char c + 32"
    by simp
  with True show ?thesis by (simp add: lower_char_def Let_def)
next
  case False
  then show ?thesis by (auto simp: lower_char_def Let_def)
qed

lemma toLowerCase_idem: "toLowerCase (toLowerCase s) = toLowerCase s"
  by (simp add: toLowerCase_def lower_char_idem)

lemma privatePatterns_test:
  "list_ex (\<lambda>pattern. pattern x) privatePatterns \<longleftrightarrow>
     toLowerCase x = ''localhost''
     \<or> match_quad (\<lambda>a. a = ''127'') digits_1_3 x
     \<or> match_quad (\<lambda>a. a = ''10'') digits_1_3 x
     \<or> match_quad (\<lambda>a. a = ''172'') seg_16_31 x
     \<or> match_quad (\<lambda>a. a = ''192'') (\<lambda>b. b = ''168'') x
     \<or> match_quad (\<lambda>a. a = ''169'') (\<lambda>b. b = ''254'') x
     \<or> x = ''0.0.0.0''
     \<or> suffix ''.internal'' (toLowerCase x)
     \<or> suffix ''.local'' (toLowerCase x)"
  by (simp add: privatePatterns_def)

lemma private_host_matches:
  assumes "private_host (toLowerCase h)"
  shows "list_ex (\<lambda>pattern. pattern (toLowerCase h)) privatePatterns"
proof -
  from assms consider
    (ip) a b c d where "private_ipv4 a b c d" "toLowerCase h = ipv4_text a b c d"
    | (lh) "toLowerCase h = ''localhost''"
    | (internal) "suffix ''.internal'' (toLowerCase h)"
    | (local) "suffix ''.local'' (toLowerCase h)"
    by (auto simp: private_host_def)
  then show ?thesis
  proof cases
    case ip
    then show ?thesis using private_ipv4_matches [of a b c d] by simp
  next
    case lh
    have "toLowerCase (toLowerCase h) = ''localhost''"
      unfolding toLowerCase_idem by (rule lh)
    then show ?thesis unfolding privatePatterns_test by blast
  next
    case internal
    have "suffix ''.internal'' (toLowerCase (toLowerCase h))"
      unfolding toLowerCase_idem by (rule internal)
    then show ?thesis unfolding privatePatterns_test by blast
  next
    case local
    have "suffix ''.local'' (toLowerCase (toLowerCase h))"
      unfolding toLowerCase_idem by (rule local)
    then show ?thesis unfolding privatePatterns_test by blast
  qed
qed

lemma private_host_rejected:
  assumes "parse url = Some u" and "private_host (toLowerCase (url_hostname u))"
  shows "\<not> uv_valid (validateDownloadUrl cfg parse url)"
    and "\<not> uv_valid (validateImageUrl cfg parse url)"
  using assms private_host_matches [of "url_hostname u"]
  by (simp_all add: validateDownloadUrl_def validateImageUrl_def Let_def)

text \<open>
  C2.  A URL whose host is loopback, private, link-local, 0.0.0.0, localhost or
  ends in \<open>.internal\<close> or \<open>.local\<close> is rejected by the validation of video and of
  image URLs, whatever the configured allowlist is (also \<open>*\<close>, also the host
  itself), and the download returns a failure without having made a request.
\<close>

theorem private_hosts_never_fetched:
  assumes "dl_parse env url = Some u" and "private_host (toLowerCase (url_hostname u))"
  shows "\<not> uv_valid (validateDownloadUrl cfg (dl_parse env) url)
       \<and> \<not> uv_valid (validateImageUrl cfg (dl_parse env) url)
       \<and> (\<exists>r. downloadVideo (Suc fuel) cfg env url requests = (Some r, requests) \<and> \<not> dr_success r)
       \<and> (\<exists>r. downloadImage (Suc fuel) cfg env url requests = (Some r, requests) \<and> \<not> dr_success r)"
  using private_host_rejected [of "dl_parse env" url u cfg] assms
  by (simp add: Let_def download_failed_def)

theorem private_hosts_never_fetched_witness:
  "\<not> uv_valid (validateDownloadUrl
                   ((env_cfg example_env)\<lparr>allowed_download_domains := [''*'', ''169.254.169.254'']\<rparr>)
                   example_parse ''http://169.254.169.254/latest/meta-data/'')
   \<and> snd (downloadVideo 3
            ((env_cfg example_env)\<lparr>allowed_download_domains := [''*'', ''169.254.169.254'']\<rparr>)
            example_download_env ''http://169.254.169.254/latest/meta-data/'' []) = []
   \<and> snd (downloadImage 3
            ((env_cfg example_env)\<lparr>allowed_download_domains := [''*'', ''169.254.169.254'']\<rparr>)
            example_download_env ''http://169.254.169.254/latest/meta-data/'' []) = []"
proof -
  let ?u = "\<lparr>url_protocol = ''http:'', url_hostname = ''169.254.169.254'',
             url_pathname = ''/latest/meta-data/''\<rparr>"
  have p: "dl_parse example_download_env ''http://169.254.169.254/latest/meta-data/'' = Some ?u"
    by (simp add: example_download_env_def example_parse_def)
  have l: "toLowerCase ''169.254.169.254'' = ''169.254.169.254''"
    by (simp add: toLowerCase_def lower_char_def)
  have "private_ipv4 169 254 169 254" by (simp add: private_ipv4_def)
  moreover have "ipv4_text 169 254 169 254 = ''169.254.169.254''"
    by (simp add: ipv4_text_def show_nat.simps digit_char_def)
  ultimately have h: "private_host (toLowerCase (url_hostname ?u))"
    unfolding private_host_def by (simp only: l ParsedUrl.simps) metis
  from private_hosts_never_fetched [of example_download_env
      "''http://169.254.169.254/latest/meta-data/''" ?u
      "(env_cfg example_env)\<lparr>allowed_download_domains := [''*'', ''169.254.169.254'']\<rparr>" 2 "[]"]
    p h
  show ?thesis
    by (auto simp: example_download_env_def numeral_3_eq_3)
qed

lemma downloadVideo_redirect:
  assumes "uv_valid (validateDownloadUrl cfg (dl_parse env) url)"
    and "dl_uploads_dir_error env = None" and "dl_local_dir_error env = None"
    and "dl_net env url = HttpResponse code (Some loc) sz"
    and "code = 301 \<or> code = 302" and "loc \<noteq> []"
  shows "downloadVideo (Suc fuel) cfg env url requests
       = downloadVideo fuel cfg env loc (requests @ [url])"
  using assms by (auto simp: Let_def)

lemma downloadImage_redirect:
  assumes "uv_valid (validateImageUrl cfg (dl_parse env) url)"
    and "dl_net env url = HttpResponse code (Some loc) sz"
    and "code = 301 \<or> code = 302" and "loc \<noteq> []"
  shows "downloadImage (Suc fuel) cfg env url requests
       = downloadImage fuel cfg env loc (requests @ [url])"
  using assms by (auto simp: Let_def)

declare downloadVideo.simps [simp del] downloadImage.simps [simp del]

lemma downloadVideo_chain:
  assumes "dl_uploads_dir_error env = None" and "dl_local_dir_error env = None"
  shows "redirect_chain validateDownloadUrl cfg env us target \<Longrightarrow>
         downloadVideo (length us + fuel) cfg env (hd (us @ [target])) requests
           = downloadVideo fuel cfg env target (requests @ us)"
proof (induction us arbitrary: requests)
  case Nil
  then show ?case by simp
next
  case (Cons u us)
  from Cons.prems obtain code sz where
    v: "uv_valid (validateDownloadUrl cfg (dl_parse env) u)"
    and n: "dl_net env u = HttpResponse code (Some (hd (us @ [target]))) sz"
    and c: "code = 301 \<or> code = 302" and l: "hd (us @ [target]) \<noteq> []"
    and r: "redirect_chain validateDownloadUrl cfg env us target"
    by (auto split: HttpOutcome.splits)
  have "downloadVideo (Suc (length us + fuel)) cfg env u requests
      = downloadVideo (length us + fuel) cfg env (hd (us @ [target])) (requests @ [u])"
    using v assms n c l by (rule downloadVideo_redirect)
  also have "\<dots> = downloadVideo fuel cfg env target ((requests @ [u]) @ us)"
    using r by (rule Cons.IH)
  finally show ?case by simp
qed

lemma downloadImage_chain:
  "redirect_chain validateImageUrl cfg env us target \<Longrightarrow>
   downloadImage (length us + fuel) cfg env (hd (us @ [target])) requests
     = downloadImage fuel cfg env target (requests @ us)"
proof (induction us arbitrary: requests)
  case Nil
  then show ?case by simp
next
  case (Cons u us)
  from Cons.prems obtain code sz where
    v: "uv_valid (validateImageUrl cfg (dl_parse env) u)"
    and n: "dl_net env u = HttpResponse code (Some (hd (us @ [target]))) sz"
    and c: "code = 301 \<or> code = 302" and l: "hd (us @ [target]) \<noteq> []"
    and r: "redirect_chain validateImageUrl cfg env us target"
    by (auto split: HttpOutcome.splits)
  have "downloadImage (Suc (length us + fuel)) cfg env u requests
      = downloadImage (length us + fuel) cfg env (hd (us @ [target])) (requests @ [u])"
    using v n c l by (rule downloadImage_redirect)
  also have "\<dots> = downloadImage fuel cfg env target ((requests @ [u]) @ us)"
    using r by (rule Cons.IH)
  finally show ?case by simp
qed

text \<open>
  C8 (amended).  A fetch that is answered 301 or 302 with a Location header
  validates the Location URL like the first URL and requests it, and it does so
  again at every further 301 or 302: along a chain of redirects of any length the
  fetch requests every URL of the chain in turn and ends as the fetch of the last
  URL does.
\<close>

theorem redirects_followed_at_every_level:
  assumes "dl_uploads_dir_error env = None" and "dl_local_dir_error env = None"
  shows "(redirect_chain validateDownloadUrl cfg env us target \<longrightarrow>
            downloadVideo (length us + fuel) cfg env (hd (us @ [target])) requests
              = downloadVideo fuel cfg env target (requests @ us))
       \<and> (redirect_chain validateImageUrl cfg env us target \<longrightarrow>
            downloadImage (length us + fuel) cfg env (hd (us @ [target])) requests
              = downloadImage fuel cfg env target (requests @ us))"
  using downloadVideo_chain [OF assms] downloadImage_chain by blast

lemma example_hosts_valid:
  "uv_valid (validateDownloadUrl (env_cfg example_env) example_parse
               ''https://allowed.example.com/clip.mp4'')"
  "uv_valid (validateDownloadUrl (env_cfg example_env) example_parse
               ''https://cdn1.example.com/clip.mp4'')"
  "uv_valid (validateDownloadUrl (env_cfg example_env) example_parse
               ''https://cdn2.example.com/clip.mp4'')"
  "uv_valid (validateImageUrl (env_cfg example_env) example_parse
               ''https://allowed.example.com/clip.mp4'')"
  "uv_valid (validateImageUrl (env_cfg example_env) example_parse
               ''https://cdn1.example.com/clip.mp4'')"
  "uv_valid (validateImageUrl (env_cfg example_env) example_parse
               ''https://cdn2.example.com/clip.mp4'')"
  by (simp_all add: validateDownloadUrl_def validateImageUrl_def example_parse_def
      example_env_def privatePatterns_def match_quad_def toLowerCase_def lower_char_def Let_def
      suffix_to_prefix)

lemma example_final_fetch:
  "downloadVideo 1 (env_cfg example_env) example_download_env
     ''https://cdn2.example.com/clip.mp4'' rs
   = (Some \<lparr>dr_success = True, dr_error = None, dr_file_size = Some 5242880\<rparr>,
      rs @ [''https://cdn2.example.com/clip.mp4''])"
  "downloadImage 1 (env_cfg example_env) example_download_env
     ''https://cdn2.example.com/clip.mp4'' rs
   = (Some \<lparr>dr_success = True, dr_error = None, dr_file_size = Some 5242880\<rparr>,
      rs @ [''https://cdn2.example.com/clip.mp4''])"
proof -
  have m: "(of_int 5242880 :: rat) / (1024 * 1024) = 5" by simp
  show "downloadVideo 1 (env_cfg example_env) example_download_env
     ''https://cdn2.example.com/clip.mp4'' rs
   = (Some \<lparr>dr_success = True, dr_error = None, dr_file_size = Some 5242880\<rparr>,
      rs @ [''https://cdn2.example.com/clip.mp4''])"
    using example_hosts_valid(3)
    by (simp add: downloadVideo.simps example_download_env_def example_net_def
        Let_def)
  show "downloadImage 1 (env_cfg example_env) example_download_env
     ''https://cdn2.example.com/clip.mp4'' rs
   = (Some \<lparr>dr_success = True, dr_error = None, dr_file_size = Some 5242880\<rparr>,
      rs @ [''https://cdn2.example.com/clip.mp4''])"
    using example_hosts_valid(6) m
    by (simp add: downloadImage.simps example_download_env_def example_net_def
        MAX_IMAGE_SIZE_MB_def Let_def)
qed

theorem redirects_followed_at_every_level_witness:
  "downloadVideo 3 (env_cfg example_env) example_download_env
     ''https://allowed.example.com/clip.mp4'' []
   = (Some \<lparr>dr_success = True, dr_error = None, dr_file_size = Some 5242880\<rparr>,
      [''https://allowed.example.com/clip.mp4'', ''https://cdn1.example.com/clip.mp4'',
       ''https://cdn2.example.com/clip.mp4''])
   \<and> downloadImage 3 (env_cfg example_env) example_download_env
     ''https://allowed.example.com/clip.mp4'' []
   = (Some \<lparr>dr_success = True, dr_error = None, dr_file_size = Some 5242880\<rparr>,
      [''https://allowed.example.com/clip.mp4'', ''https://cdn1.example.com/clip.mp4'',
       ''https://cdn2.example.com/clip.mp4''])"
proof -
  let ?us = "[''https://allowed.example.com/clip.mp4'', ''https://cdn1.example.com/clip.mp4'']"
  let ?t = "''https://cdn2.example.com/clip.mp4''"
  have d: "dl_uploads_dir_error example_download_env = None"
    "dl_local_dir_error example_download_env = None"
    by (simp_all add: example_download_env_def)
  have cv: "redirect_chain validateDownloadUrl (env_cfg example_env) example_download_env ?us ?t"
    using example_hosts_valid(1,2) by (simp add: example_download_env_def example_net_def)
  have ci: "redirect_chain validateImageUrl (env_cfg example_env) example_download_env ?us ?t"
    using example_hosts_valid(4,5) by (simp add: example_download_env_def example_net_def)
  show ?thesis
    using redirects_followed_at_every_level [OF d, of "env_cfg example_env" ?us ?t 1 "[]"] cv ci
      example_final_fetch [of ?us]
    by (simp add: numeral_3_eq_3)
qed

text \<open>
  The claim as stated fails: the Location of the first redirect is itself answered
  with a redirect, and that second redirect is followed too.
\<close>

theorem second_redirect_followed_counterexample:
  "example_net ''https://allowed.example.com/clip.mp4''
     = HttpResponse 302 (Some ''https://cdn1.example.com/clip.mp4'') 0
   \<and> example_net ''https://cdn1.example.com/clip.mp4''
     = HttpResponse 301 (Some ''https://cdn2.example.com/clip.mp4'') 0
   \<and> snd (downloadVideo 3 (env_cfg example_env) example_download_env
            ''https://allowed.example.com/clip.mp4'' [])
     = [''https://allowed.example.com/clip.mp4'', ''https://cdn1.example.com/clip.mp4'',
        ''https://cdn2.example.com/clip.mp4'']
   \<and> snd (downloadImage 3 (env_cfg example_env) example_download_env
            ''https://allowed.example.com/clip.mp4'' [])
     = [''https://allowed.example.com/clip.mp4'', ''https://cdn1.example.com/clip.mp4'',
        ''https://cdn2.example.com/clip.mp4'']"
proof -
  let ?us = "[''https://allowed.example.com/clip.mp4'', ''https://cdn1.example.com/clip.mp4'']"
  let ?t = "''https://cdn2.example.com/clip.mp4''"
  have d: "dl_uploads_dir_error example_download_env = None"
    "dl_local_dir_error example_download_env = None"
    by (simp_all add: example_download_env_def)
  have cv: "redirect_chain validateDownloadUrl (env_cfg example_env) example_download_env ?us ?t"
    using example_hosts_valid(1,2) by (simp add: example_download_env_def example_net_def)
  have ci: "redirect_chain validateImageUrl (env_cfg example_env) example_download_env ?us ?t"
    using example_hosts_valid(4,5) by (simp add: example_download_env_def example_net_def)
  have "downloadVideo (length ?us + 1) (env_cfg example_env) example_download_env
          (hd (?us @ [?t])) [] 
        = downloadVideo 1 (env_cfg example_env) example_download_env ?t ([] @ ?us)"
    using d cv by (rule downloadVideo_chain)
  moreover have "downloadImage (length ?us + 1) (env_cfg example_env) example_download_env
          (hd (?us @ [?t])) [] 
        = downloadImage 1 (env_cfg example_env) example_download_env ?t ([] @ ?us)"
    using ci by (rule downloadImage_chain)
  ultimately show ?thesis
    using example_final_fetch [of ?us]
    by (simp add: numeral_3_eq_3 example_net_def)
qed

end
